theory Spec2Isabelle
  imports Main "HOL-Library.Char_ord" "HOL-Library.List_Lexorder" "HOL-Library.Multiset"
begin

section \<open>Data model\<close>

text \<open>
  Threads and annotations are JavaScript objects. Each property that the storage
  layer or the CSV export reads is a record field; a field of type \<open>option\<close> is
  \<open>None\<close> when the property is missing (or \<open>undefined\<close>/\<open>null\<close>, which the
  code does not tell apart for these fields), so JavaScript truthiness of a string
  property is "present and non-empty". The id of a thread keeps \<open>undefined\<close> (or
  missing) and \<open>null\<close> apart, since a template literal prints them differently.
\<close>

datatype id_value = Undefined | Null | Str string

datatype tstamp = Iso string | ServerTimestamp

record message =
  role :: string
  content :: string

record annotation =
  rating :: "string option"
  ann_notes :: "string option"
  tags :: "string list option"
  timestamp :: "string option"
  createdBy :: "string option"
  createdByUid :: "string option"

text \<open>
  \<open>thread.annotations\<close> is an array, or (legacy) one bare annotation object, or
  missing.
\<close>

datatype annotations_field =
  NoAnnotations
  | SingleAnnotation annotation
  | AnnotationArray "annotation list"

record thread =
  thread_id :: id_value
  title :: "string option"
  createdAt :: "tstamp option"
  updatedAt :: "tstamp option"
  isAnnotated :: "bool option"
  messages :: "message list"
  annotations :: annotations_field
  lastModifiedBy :: "string option"
  lastModifiedByUid :: "string option"
  importedBy :: "string option"
  importedByUid :: "string option"

text \<open>
  The \<open>updates\<close> argument of \<open>updateThread\<close> is a partial object: each field
  is \<open>None\<close> when the key is not among the object's own keys and \<open>Some v\<close> when
  the key is there with value \<open>v\<close>.
\<close>

record thread_updates =
  upd_thread_id :: "id_value option"
  upd_title :: "string option option"
  upd_createdAt :: "tstamp option option"
  upd_updatedAt :: "tstamp option option"
  upd_isAnnotated :: "bool option option"
  upd_messages :: "message list option"
  upd_annotations :: "annotations_field option"
  upd_lastModifiedBy :: "string option option"
  upd_lastModifiedByUid :: "string option option"
  upd_importedBy :: "string option option"
  upd_importedByUid :: "string option option"

text \<open>An element of the array handed to \<open>saveThreads\<close>.\<close>

datatype js_value = JsNull | JsPrimitive | JsObject thread

datatype storage_error =
  UserNotAuthenticated
  | ThreadNotFound
  | IdbError
  | NetworkError
  | InvalidArgument

text \<open>JavaScript truthiness of an optional string and of an optional timestamp.\<close>

definition truthy_str :: "string option \<Rightarrow> bool" where
  "truthy_str v = (case v of None \<Rightarrow> False | Some s \<Rightarrow> s \<noteq> [])"

definition truthy_id :: "id_value \<Rightarrow> bool" where
  "truthy_id v = (case v of Str s \<Rightarrow> s \<noteq> [] | _ \<Rightarrow> False)"

definition truthy_ts :: "tstamp option \<Rightarrow> bool" where
  "truthy_ts v = (case v of None \<Rightarrow> False | Some (Iso s) \<Rightarrow> s \<noteq> [] | Some ServerTimestamp \<Rightarrow> True)"

text \<open>The own keys of an object, as the spread \<open>{...thread}\<close> copies them.\<close>

definition own_key :: "'a option \<Rightarrow> 'a option option" where
  "own_key v = (case v of None \<Rightarrow> None | Some x \<Rightarrow> Some (Some x))"

definition as_updates :: "thread \<Rightarrow> thread_updates" where
  "as_updates t =
     \<lparr> upd_thread_id = (case thread_id t of Undefined \<Rightarrow> None | v \<Rightarrow> Some v),
       upd_title = own_key (title t),
       upd_createdAt = own_key (createdAt t),
       upd_updatedAt = own_key (updatedAt t),
       upd_isAnnotated = own_key (isAnnotated t),
       upd_messages = Some (messages t),
       upd_annotations = (case annotations t of NoAnnotations \<Rightarrow> None | a \<Rightarrow> Some a),
       upd_lastModifiedBy = own_key (lastModifiedBy t),
       upd_lastModifiedByUid = own_key (lastModifiedByUid t),
       upd_importedBy = own_key (importedBy t),
       upd_importedByUid = own_key (importedByUid t) \<rparr>"

definition spread_field :: "'a \<Rightarrow> 'a option \<Rightarrow> 'a" where
  "spread_field old new = (case new of None \<Rightarrow> old | Some v \<Rightarrow> v)"

text \<open>\<open>{...thread, ...updates}\<close>: every key of \<open>updates\<close> overrides.\<close>

definition spread_updates :: "thread \<Rightarrow> thread_updates \<Rightarrow> thread" where
  "spread_updates t u =
     \<lparr> thread_id = spread_field (thread_id t) (upd_thread_id u),
       title = spread_field (title t) (upd_title u),
       createdAt = spread_field (createdAt t) (upd_createdAt u),
       updatedAt = spread_field (updatedAt t) (upd_updatedAt u),
       isAnnotated = spread_field (isAnnotated t) (upd_isAnnotated u),
       messages = spread_field (messages t) (upd_messages u),
       annotations = spread_field (annotations t) (upd_annotations u),
       lastModifiedBy = spread_field (lastModifiedBy t) (upd_lastModifiedBy u),
       lastModifiedByUid = spread_field (lastModifiedByUid t) (upd_lastModifiedByUid u),
       importedBy = spread_field (importedBy t) (upd_importedBy u),
       importedByUid = spread_field (importedByUid t) (upd_importedByUid u) \<rparr>"

text \<open>\<open>Array.prototype.join\<close> on an array of strings.\<close>

fun join :: "string \<Rightarrow> string list \<Rightarrow> string" where
  "join sep [] = []"
| "join sep [x] = x"
| "join sep (x # y # ys) = x @ sep @ join sep (y # ys)"

section \<open>Remote engine (firebaseStorage)\<close>

record user =
  email :: "string option"
  uid :: string

text \<open>
  The state the remote module works on: \<open>auth.currentUser\<close>, the documents
  below \<open>threads\<close> by their path under it (the document id for a document of the
  collection itself, a path with \<open>/\<close> for a document of a subcollection), most
  recently written first, which is the order of \<open>orderBy('updatedAt', 'desc')\<close>
  since every write stamps \<open>updatedAt\<close>, whether a Firestore request fails, and the
  number of Firestore requests issued so far.
\<close>

record remote =
  currentUser :: "user option"
  docs :: "(string \<times> thread) list"
  net_error :: bool
  net_calls :: nat

definition put_doc :: "string \<Rightarrow> thread \<Rightarrow> (string \<times> thread) list \<Rightarrow> (string \<times> thread) list" where
  "put_doc k v ds = (k, v) # filter (\<lambda>p. fst p \<noteq> k) ds"

text \<open>\<open>String.prototype.split('/')\<close>\<close>

fun split_slash :: "string \<Rightarrow> string list" where
  "split_slash [] = [[]]"
| "split_slash (c # cs) =
     (if c = CHR ''/'' then [] # split_slash cs
      else (case split_slash cs of [] \<Rightarrow> [[c]] | seg # segs \<Rightarrow> (c # seg) # segs))"

text \<open>\<open>path.indexOf('//') >= 0\<close>\<close>

fun double_slash :: "string \<Rightarrow> bool" where
  "double_slash (a # b # cs) = ((a = CHR ''/'' \<and> b = CHR ''/'') \<or> double_slash (b # cs))"
| "double_slash cs = False"

text \<open>
  \<open>doc(db, THREADS_COLLECTION, id)\<close>. The id has to be a string (the call throws on
  \<open>undefined\<close> and \<open>null\<close>). Firestore rejects a path with \<open>//\<close>, drops the
  empty segments of the rest, and rejects the path unless \<open>threads\<close> and these
  segments together are an even number of segments, that is, name a document. So the
  empty id and \<open>a/b\<close> are rejected, and \<open>a/b/c\<close> names a document of a
  subcollection. The result is the path of the document under \<open>threads\<close>.
\<close>

definition doc_ref :: "id_value \<Rightarrow> string option" where
  "doc_ref i =
     (case i of
        Str k \<Rightarrow>
          (if double_slash k then None
           else (let segments = filter (\<lambda>seg. seg \<noteq> []) (split_slash k)
                 in if even (length segments) then None else Some (join ''/'' segments)))
      | _ \<Rightarrow> None)"

definition setDoc :: "remote \<Rightarrow> string \<Rightarrow> thread \<Rightarrow> (storage_error + unit) \<times> remote" where
  "setDoc r k v =
     (if net_error r then (Inl NetworkError, r\<lparr>net_calls := Suc (net_calls r)\<rparr>)
      else (Inr (), r\<lparr>docs := put_doc k v (docs r), net_calls := Suc (net_calls r)\<rparr>))"

definition getDoc :: "remote \<Rightarrow> string \<Rightarrow> (storage_error + thread option) \<times> remote" where
  "getDoc r k =
     (if net_error r then (Inl NetworkError, r\<lparr>net_calls := Suc (net_calls r)\<rparr>)
      else (Inr (map_of (docs r) k), r\<lparr>net_calls := Suc (net_calls r)\<rparr>))"

text \<open>
  The query on \<open>collection(db, THREADS_COLLECTION)\<close> ordered by \<open>updatedAt\<close>:
  the documents of the collection itself that have the field.
\<close>

definition getDocs :: "remote \<Rightarrow> (storage_error + thread list) \<times> remote" where
  "getDocs r =
     (if net_error r then (Inl NetworkError, r\<lparr>net_calls := Suc (net_calls r)\<rparr>)
      else (Inr (filter (\<lambda>d. updatedAt d \<noteq> None)
                  (map snd (filter (\<lambda>p. CHR ''/'' \<notin> set (fst p)) (docs r)))),
            r\<lparr>net_calls := Suc (net_calls r)\<rparr>))"

text \<open>\<open>updateDoc\<close> merges the given fields into the document, which must exist.\<close>

definition updateDoc :: "remote \<Rightarrow> string \<Rightarrow> thread_updates \<Rightarrow> (storage_error + unit) \<times> remote" where
  "updateDoc r k u =
     (if net_error r then (Inl NetworkError, r\<lparr>net_calls := Suc (net_calls r)\<rparr>)
      else (case map_of (docs r) k of
              None \<Rightarrow> (Inl ThreadNotFound, r\<lparr>net_calls := Suc (net_calls r)\<rparr>)
            | Some old \<Rightarrow>
                (Inr (), r\<lparr>docs := put_doc k (spread_updates old u) (docs r),
                            net_calls := Suc (net_calls r)\<rparr>)))"

definition deleteDoc :: "remote \<Rightarrow> string \<Rightarrow> (storage_error + unit) \<times> remote" where
  "deleteDoc r k =
     (if net_error r then (Inl NetworkError, r\<lparr>net_calls := Suc (net_calls r)\<rparr>)
      else (Inr (), r\<lparr>docs := filter (\<lambda>p. fst p \<noteq> k) (docs r),
                       net_calls := Suc (net_calls r)\<rparr>))"

definition remoteStorage_saveThread :: "remote \<Rightarrow> thread \<Rightarrow> (storage_error + thread) \<times> remote" where
  "remoteStorage_saveThread r t =
     (case currentUser r of
        None \<Rightarrow> (Inl UserNotAuthenticated, r)
      | Some u \<Rightarrow>
          (case doc_ref (thread_id t) of
             None \<Rightarrow> (Inl InvalidArgument, r)
           | Some k \<Rightarrow>
               (let threadWithMeta = t\<lparr>
                      lastModifiedBy := email u,
                      lastModifiedByUid := Some (uid u),
                      updatedAt := Some ServerTimestamp,
                      createdAt := (if truthy_ts (createdAt t) then createdAt t
                                    else Some ServerTimestamp)\<rparr>
                in (case setDoc r k threadWithMeta of
                      (Inl e, r') \<Rightarrow> (Inl e, r')
                    | (Inr _, r') \<Rightarrow> (Inr threadWithMeta, r')))))"

definition remoteStorage_getThreads :: "remote \<Rightarrow> (storage_error + thread list) \<times> remote" where
  "remoteStorage_getThreads r =
     (case currentUser r of
        None \<Rightarrow> (Inl UserNotAuthenticated, r)
      | Some u \<Rightarrow> getDocs r)"

definition remoteStorage_getThread :: "remote \<Rightarrow> string \<Rightarrow> (storage_error + thread option) \<times> remote" where
  "remoteStorage_getThread r threadId =
     (case currentUser r of
        None \<Rightarrow> (Inl UserNotAuthenticated, r)
      | Some u \<Rightarrow>
          (case doc_ref (Str threadId) of
             None \<Rightarrow> (Inl InvalidArgument, r)
           | Some k \<Rightarrow> getDoc r k))"

definition remoteStorage_updateThread ::
  "remote \<Rightarrow> string \<Rightarrow> thread_updates \<Rightarrow> (storage_error + bool) \<times> remote" where
  "remoteStorage_updateThread r threadId updates =
     (case currentUser r of
        None \<Rightarrow> (Inl UserNotAuthenticated, r)
      | Some u \<Rightarrow>
          (case doc_ref (Str threadId) of
             None \<Rightarrow> (Inl InvalidArgument, r)
           | Some k \<Rightarrow>
               (case getDoc r k of
                  (Inl e, r1) \<Rightarrow> (Inl e, r1)
                | (Inr None, r1) \<Rightarrow> (Inl ThreadNotFound, r1)
                | (Inr (Some threadSnap), r1) \<Rightarrow>
                    (let updateData = updates\<lparr>
                           upd_lastModifiedBy := Some (email u),
                           upd_lastModifiedByUid := Some (Some (uid u)),
                           upd_updatedAt := Some (Some ServerTimestamp)\<rparr>
                     in (case updateDoc r1 k updateData of
                           (Inl e, r2) \<Rightarrow> (Inl e, r2)
                         | (Inr _, r2) \<Rightarrow> (Inr True, r2))))))"

definition remoteStorage_deleteThread :: "remote \<Rightarrow> string \<Rightarrow> (storage_error + bool) \<times> remote" where
  "remoteStorage_deleteThread r threadId =
     (case currentUser r of
        None \<Rightarrow> (Inl UserNotAuthenticated, r)
      | Some u \<Rightarrow>
          (case doc_ref (Str threadId) of
             None \<Rightarrow> (Inl InvalidArgument, r)
           | Some k \<Rightarrow>
               (case getDoc r k of
                  (Inl e, r1) \<Rightarrow> (Inl e, r1)
                | (Inr None, r1) \<Rightarrow> (Inl ThreadNotFound, r1)
                | (Inr (Some threadSnap), r1) \<Rightarrow>
                    (case deleteDoc r1 k of
                       (Inl e, r2) \<Rightarrow> (Inl e, r2)
                     | (Inr _, r2) \<Rightarrow> (Inr True, r2)))))"

text \<open>The object built for each thread in the loop of \<open>importThreads\<close>.\<close>

definition import_meta :: "user \<Rightarrow> thread \<Rightarrow> thread" where
  "import_meta u t = t\<lparr>
     importedBy := email u,
     importedByUid := Some (uid u),
     updatedAt := Some ServerTimestamp,
     createdAt := (if truthy_ts (createdAt t) then createdAt t else Some ServerTimestamp)\<rparr>"

text \<open>The \<open>for (const thread of threads)\<close> loop of \<open>importThreads\<close>.\<close>

fun import_loop ::
  "user \<Rightarrow> remote \<Rightarrow> thread list \<Rightarrow> thread list \<Rightarrow> (storage_error + thread list) \<times> remote" where
  "import_loop u r [] results = (Inr results, r)"
| "import_loop u r (t # rest) results =
     (let threadWithMeta = import_meta u t
      in (case doc_ref (thread_id t) of
            None \<Rightarrow> (Inl InvalidArgument, r)
          | Some k \<Rightarrow>
              (case setDoc r k threadWithMeta of
                 (Inl e, r') \<Rightarrow> (Inl e, r')
               | (Inr _, r') \<Rightarrow> import_loop u r' rest (results @ [threadWithMeta]))))"

definition remoteStorage_importThreads ::
  "remote \<Rightarrow> thread list \<Rightarrow> (storage_error + thread list) \<times> remote" where
  "remoteStorage_importThreads r threads =
     (case currentUser r of
        None \<Rightarrow> (Inl UserNotAuthenticated, r)
      | Some u \<Rightarrow> import_loop u r threads [])"

section \<open>Local engine (IndexedDBStorage)\<close>

text \<open>
  The state the local module works on: the cached connection
  \<open>IndexedDBStorage.db\<close>, whether \<open>window.indexedDB\<close> exists, whether
  \<open>indexedDB.open\<close> succeeds, whether a read request or a write transaction fails,
  the records of the \<open>threads\<close> object store (key path \<open>id\<close>, so the keys are
  distinct and \<open>getAll\<close> lists the records in key order), and the numbers of
  read-only and read-write transactions started so far.
\<close>

record idb =
  db_handle :: bool
  indexedDB_present :: bool
  open_ok :: bool
  read_error :: bool
  write_error :: bool
  records :: "thread list"
  idb_reads :: nat
  idb_writes :: nat

definition IndexedDBStorage_init :: "idb \<Rightarrow> bool \<times> idb" where
  "IndexedDBStorage_init l =
     (if db_handle l then (True, l)
      else if \<not> indexedDB_present l then (False, l)
      else if open_ok l then (True, l\<lparr>db_handle := True\<rparr>)
      else (False, l))"

text \<open>
  A rejected request promise is returned from inside \<open>try\<close> without \<open>await\<close>, so
  the \<open>catch\<close> of the function only sees a failure of \<open>init\<close>.
\<close>

definition IndexedDBStorage_getThreads :: "idb \<Rightarrow> (storage_error + thread list) \<times> idb" where
  "IndexedDBStorage_getThreads l =
     (case IndexedDBStorage_init l of
        (False, l1) \<Rightarrow> (Inr [], l1)
      | (True, l1) \<Rightarrow>
          (if read_error l1 then (Inl IdbError, l1\<lparr>idb_reads := Suc (idb_reads l1)\<rparr>)
           else (Inr (records l1), l1\<lparr>idb_reads := Suc (idb_reads l1)\<rparr>)))"

definition IndexedDBStorage_getThreadById ::
  "idb \<Rightarrow> string \<Rightarrow> (storage_error + thread option) \<times> idb" where
  "IndexedDBStorage_getThreadById l threadId =
     (case IndexedDBStorage_init l of
        (False, l1) \<Rightarrow> (Inr None, l1)
      | (True, l1) \<Rightarrow>
          (if read_error l1 then (Inl IdbError, l1\<lparr>idb_reads := Suc (idb_reads l1)\<rparr>)
           else (Inr (find (\<lambda>t. thread_id t = Str threadId) (records l1)),
                 l1\<lparr>idb_reads := Suc (idb_reads l1)\<rparr>)))"

text \<open>\<open>thread && typeof thread === 'object' && thread.id\<close>\<close>

definition cleaned :: "js_value \<Rightarrow> bool" where
  "cleaned v = (case v of JsObject t \<Rightarrow> truthy_id (thread_id t) | _ \<Rightarrow> False)"

definition object_of :: "js_value \<Rightarrow> thread option" where
  "object_of v = (case v of JsObject t \<Rightarrow> Some t | _ \<Rightarrow> None)"

definition key_of :: "thread \<Rightarrow> string" where
  "key_of t = (case thread_id t of Str k \<Rightarrow> k | _ \<Rightarrow> [])"

text \<open>
  \<open>saveThreads\<close> clears the store and adds the cleaned records one by one in one
  transaction. \<open>store.add\<close> fails on a key that is already there; the handler
  of the failed request only logs, so the transaction aborts, nothing of it is kept and
  the promise is rejected. The argument is a list, so the first guard of the source
  (\<open>!threads || !Array.isArray(threads)\<close>) never fires here. A failure of
  \<open>init\<close> is caught and gives \<open>false\<close>.
\<close>

definition IndexedDBStorage_saveThreads ::
  "idb \<Rightarrow> js_value list \<Rightarrow> (storage_error + bool) \<times> idb" where
  "IndexedDBStorage_saveThreads l threads =
     (case IndexedDBStorage_init l of
        (False, l1) \<Rightarrow> (Inr False, l1)
      | (True, l1) \<Rightarrow>
          (let cleanedThreads = List.map_filter object_of (filter cleaned threads);
               l2 = l1\<lparr>idb_writes := Suc (idb_writes l1)\<rparr>
           in if write_error l1 then (Inl IdbError, l2)
              else if \<not> distinct (map key_of cleanedThreads) then (Inl IdbError, l2)
              else (Inr True, l2\<lparr>records := sort_key key_of cleanedThreads\<rparr>)))"

section \<open>Storage facade (storageService)\<close>

datatype engine = IndexedDBStorage | RemoteStorage

record storage =
  currentStorage :: engine
  localdb :: idb
  remotedb :: remote

definition on_local :: "(idb \<Rightarrow> 'a \<times> idb) \<Rightarrow> storage \<Rightarrow> 'a \<times> storage" where
  "on_local f s = (case f (localdb s) of (x, l') \<Rightarrow> (x, s\<lparr>localdb := l'\<rparr>))"

definition on_remote :: "(remote \<Rightarrow> 'a \<times> remote) \<Rightarrow> storage \<Rightarrow> 'a \<times> storage" where
  "on_remote f s = (case f (remotedb s) of (x, r') \<Rightarrow> (x, s\<lparr>remotedb := r'\<rparr>))"

definition isAuthenticated :: "storage \<Rightarrow> bool" where
  "isAuthenticated s = (currentUser (remotedb s) \<noteq> None)"


definition getThread :: "storage \<Rightarrow> string \<Rightarrow> (storage_error + thread option) \<times> storage" where
  "getThread s threadId =
     (if currentStorage s = IndexedDBStorage
      then on_local (\<lambda>l. IndexedDBStorage_getThreadById l threadId) s
      else on_remote (\<lambda>r. remoteStorage_getThread r threadId) s)"

fun findIndex :: "('a \<Rightarrow> bool) \<Rightarrow> 'a list \<Rightarrow> nat option" where
  "findIndex P [] = None"
| "findIndex P (x # xs) = (if P x then Some 0 else map_option Suc (findIndex P xs))"

definition updateThread ::
  "storage \<Rightarrow> string \<Rightarrow> thread_updates \<Rightarrow> (storage_error + bool) \<times> storage" where
  "updateThread s threadId updates =
     (if currentStorage s = IndexedDBStorage then
        (case on_local (\<lambda>l. IndexedDBStorage_getThreadById l threadId) s of
           (Inl e, s1) \<Rightarrow> (Inl e, s1)
         | (Inr None, s1) \<Rightarrow> (Inl ThreadNotFound, s1)
         | (Inr (Some t), s1) \<Rightarrow>
             (let updatedThread = spread_updates t updates
              in (case on_local IndexedDBStorage_getThreads s1 of
                    (Inl e, s2) \<Rightarrow> (Inl e, s2)
                  | (Inr threads, s2) \<Rightarrow>
                      (let threads' =
                             (case findIndex (\<lambda>t. thread_id t = Str threadId) threads of
                                Some index \<Rightarrow> threads[index := updatedThread]
                              | None \<Rightarrow> threads @ [updatedThread])
                       in (case on_local (\<lambda>l. IndexedDBStorage_saveThreads l
                                                  (map JsObject threads')) s2 of
                             (Inl e, s3) \<Rightarrow> (Inl e, s3)
                           | (Inr _, s3) \<Rightarrow> (Inr True, s3))))))
      else on_remote (\<lambda>r. remoteStorage_updateThread r threadId updates) s)"

definition deleteThread :: "storage \<Rightarrow> string \<Rightarrow> (storage_error + bool) \<times> storage" where
  "deleteThread s threadId =
     (if currentStorage s = IndexedDBStorage then
        (case on_local IndexedDBStorage_getThreads s of
           (Inl e, s1) \<Rightarrow> (Inl e, s1)
         | (Inr threads, s1) \<Rightarrow>
             (let filteredThreads = filter (\<lambda>t. thread_id t \<noteq> Str threadId) threads
              in if length filteredThreads = length threads then (Inr False, s1)
                 else (case on_local (\<lambda>l. IndexedDBStorage_saveThreads l
                                             (map JsObject filteredThreads)) s1 of
                         (Inl e, s2) \<Rightarrow> (Inl e, s2)
                       | (Inr _, s2) \<Rightarrow> (Inr True, s2))))
      else on_remote (\<lambda>r. remoteStorage_deleteThread r threadId) s)"

text \<open>
  \<open>Array.isArray(a) ? a : a ? [a] : []\<close>, the normalisation of
  \<open>thread.annotations\<close> to a sequence.
\<close>

definition annotation_seq :: "annotations_field \<Rightarrow> annotation list" where
  "annotation_seq a =
     (case a of AnnotationArray xs \<Rightarrow> xs | SingleAnnotation x \<Rightarrow> [x] | NoAnnotations \<Rightarrow> [])"

text \<open>
  \<open>updateAnnotation\<close>; \<open>now\<close> is the value of \<open>new Date().toISOString()\<close> at the
  call.
\<close>

definition updateAnnotation ::
  "storage \<Rightarrow> string \<Rightarrow> annotation \<Rightarrow> string \<Rightarrow> (storage_error + bool) \<times> storage" where
  "updateAnnotation s threadId annotationData now =
     (case getThread s threadId of
        (Inl e, s1) \<Rightarrow> (Inl e, s1)
      | (Inr None, s1) \<Rightarrow> (Inl ThreadNotFound, s1)
      | (Inr (Some t), s1) \<Rightarrow>
          (let existingAnnotations = annotation_seq (annotations t);
               updatedThread = t\<lparr>
                 isAnnotated := Some True,
                 annotations := AnnotationArray
                   (existingAnnotations @ [annotationData\<lparr>timestamp := Some now\<rparr>])\<rparr>
           in updateThread s1 threadId (as_updates updatedThread)))"

text \<open>
  \<open>xs.splice(start, 1)\<close> on an integer \<open>start\<close>: a negative start counts from
  the end and is clamped to 0, a start beyond the length is clamped to the length.
\<close>

definition splice1 :: "'a list \<Rightarrow> int \<Rightarrow> 'a list" where
  "splice1 xs start =
     (let len = int (length xs);
          actualStart = nat (if start < 0 then max (len + start) 0 else min start len)
      in take actualStart xs @ drop (Suc actualStart) xs)"

definition deleteAnnotation ::
  "storage \<Rightarrow> string \<Rightarrow> int \<Rightarrow> (storage_error + bool) \<times> storage" where
  "deleteAnnotation s threadId annotationIndex =
     (case getThread s threadId of
        (Inl e, s1) \<Rightarrow> (Inl e, s1)
      | (Inr None, s1) \<Rightarrow> (Inl ThreadNotFound, s1)
      | (Inr (Some t), s1) \<Rightarrow>
          (let copy = annotation_seq (annotations t);
               updatedAnnotations =
                 (if int (length copy) > annotationIndex then splice1 copy annotationIndex
                  else copy);
               updatedThread = t\<lparr>
                 annotations := AnnotationArray updatedAnnotations,
                 isAnnotated := Some (length updatedAnnotations > 0)\<rparr>
           in updateThread s1 threadId (as_updates updatedThread)))"

definition syncToRemote :: "storage \<Rightarrow> (storage_error + nat) \<times> storage" where
  "syncToRemote s =
     (if \<not> isAuthenticated s then (Inl UserNotAuthenticated, s)
      else (case on_local IndexedDBStorage_getThreads s of
              (Inl e, s1) \<Rightarrow> (Inl e, s1)
            | (Inr localThreads, s1) \<Rightarrow>
                (if length localThreads > 0 then
                   (case on_remote (\<lambda>r. remoteStorage_importThreads r localThreads) s1 of
                      (Inl e, s2) \<Rightarrow> (Inl e, s2)
                    | (Inr _, s2) \<Rightarrow> (Inr (length localThreads), s2))
                 else (Inr (length localThreads), s1))))"

section \<open>CSV export (helpers)\<close>

definition digit :: "nat \<Rightarrow> char" where
  "digit d = ''0123456789'' ! d"

function number_toString :: "nat \<Rightarrow> string" where
  "number_toString n =
     (if n < 10 then [digit n] else number_toString (n div 10) @ [digit (n mod 10)])"
  by pat_completeness auto
termination
  by (relation "measure id") auto

text \<open>
  How \<open>Array.prototype.join\<close> prints an element that is an optional string or an
  id (\<open>undefined\<close> and \<open>null\<close> give the empty string), and how a template
  literal prints an id.
\<close>

definition string_or_empty :: "string option \<Rightarrow> string" where
  "string_or_empty v = (case v of None \<Rightarrow> [] | Some s \<Rightarrow> s)"

definition element_string :: "id_value \<Rightarrow> string" where
  "element_string v = (case v of Str s \<Rightarrow> s | _ \<Rightarrow> [])"

definition template_string :: "id_value \<Rightarrow> string" where
  "template_string v =
     (case v of Undefined \<Rightarrow> ''undefined'' | Null \<Rightarrow> ''null'' | Str s \<Rightarrow> s)"

fun replace_quotes :: "string \<Rightarrow> string" where
  "replace_quotes [] = []"
| "replace_quotes (c # cs) =
     (if c = CHR 0x22 then CHR 0x22 # CHR 0x22 # replace_quotes cs else c # replace_quotes cs)"

definition headers :: "string list" where
  "headers = [''Thread ID'', ''Thread Title'', ''Annotation Index'', ''Rating'', ''Notes'',
              ''Tags'', ''Timestamp'']"

definition csv_row :: "thread \<Rightarrow> nat \<Rightarrow> annotation \<Rightarrow> string list" where
  "csv_row t index a =
     [ element_string (thread_id t),
       (if truthy_str (title t) then string_or_empty (title t)
        else ''Thread '' @ template_string (thread_id t)),
       number_toString index,
       (if truthy_str (rating a) then string_or_empty (rating a) else []),
       (if truthy_str (ann_notes a)
        then [CHR 0x22] @ replace_quotes (string_or_empty (ann_notes a)) @ [CHR 0x22] else []),
       (case tags a of None \<Rightarrow> [] | Some ts \<Rightarrow> join '';'' ts),
       (if truthy_str (timestamp a) then string_or_empty (timestamp a) else []) ]"

fun push_rows :: "thread \<Rightarrow> annotation list \<Rightarrow> nat \<Rightarrow> string list list \<Rightarrow> string list list" where
  "push_rows t [] index rows = rows"
| "push_rows t (a # rest) index rows = push_rows t rest (Suc index) (rows @ [csv_row t index a])"

definition thread_rows :: "thread \<Rightarrow> string list list \<Rightarrow> string list list" where
  "thread_rows t rows =
     (if annotations t = NoAnnotations \<or> annotations t = AnnotationArray [] then rows
      else push_rows t (annotation_seq (annotations t)) 0 rows)"

definition convertAnnotationsToCSV :: "thread list \<Rightarrow> string" where
  "convertAnnotationsToCSV threads =
     (let rows = fold thread_rows threads []
      in join [CHR 0x0A] (join '','' headers # map (join '','') rows))"


text \<open>
  The export as the specification words it, written without the functions of the
  source: the header line, then, each after a line feed, one line per (thread,
  annotation) pair of the threads whose annotations, taken as a sequence, are not empty.
  A line is the seven fields separated by commas. The notes are wrapped in double quotes
  with every double quote doubled; a note that is missing or is the empty string gives
  an empty field. The tags are joined with a semicolon.
\<close>

definition annotations_of_thread :: "thread \<Rightarrow> annotation list" where
  "annotations_of_thread t =
     (case annotations t of
        NoAnnotations \<Rightarrow> []
      | SingleAnnotation a \<Rightarrow> [a]
      | AnnotationArray xs \<Rightarrow> xs)"

definition thread_annotation_pairs :: "thread list \<Rightarrow> (thread \<times> nat \<times> annotation) list" where
  "thread_annotation_pairs threads =
     concat (map (\<lambda>t. map (\<lambda>(i, a). (t, i, a)) (enumerate 0 (annotations_of_thread t)))
                 (filter (\<lambda>t. annotations_of_thread t \<noteq> []) threads))"

definition quoted_note :: "string \<Rightarrow> string" where
  "quoted_note n =
     CHR 0x22 # concat (map (\<lambda>c. if c = CHR 0x22 then [CHR 0x22, CHR 0x22] else [c]) n)
     @ [CHR 0x22]"

definition notes_field :: "annotation \<Rightarrow> string" where
  "notes_field a =
     (case ann_notes a of None \<Rightarrow> [] | Some n \<Rightarrow> if n = [] then [] else quoted_note n)"

fun semicolon_separated :: "string list \<Rightarrow> string" where
  "semicolon_separated [] = []"
| "semicolon_separated [x] = x"
| "semicolon_separated (x # y # ys) = x @ CHR '';'' # semicolon_separated (y # ys)"

definition tags_field :: "annotation \<Rightarrow> string" where
  "tags_field a = (case tags a of None \<Rightarrow> [] | Some ts \<Rightarrow> semicolon_separated ts)"

definition default_title :: "thread \<Rightarrow> string" where
  "default_title t =
     ''Thread '' @ (case thread_id t of
                      Str s \<Rightarrow> s | Null \<Rightarrow> ''null'' | Undefined \<Rightarrow> ''undefined'')"

definition csv_line :: "thread \<times> nat \<times> annotation \<Rightarrow> string" where
  "csv_line p =
     (case p of (t, i, a) \<Rightarrow>
        (case thread_id t of Str s \<Rightarrow> s | _ \<Rightarrow> [])
        @ CHR '','' # (case title t of
                        None \<Rightarrow> default_title t
                      | Some s \<Rightarrow> if s = [] then default_title t else s)
        @ CHR '','' # number_toString i
        @ CHR '','' # (case rating a of None \<Rightarrow> [] | Some r \<Rightarrow> r)
        @ CHR '','' # notes_field a
        @ CHR '','' # tags_field a
        @ CHR '','' # (case timestamp a of None \<Rightarrow> [] | Some ts \<Rightarrow> ts))"

text \<open>The number a string of decimal digits stands for.\<close>

definition digit_value :: "char \<Rightarrow> nat" where
  "digit_value c = of_char c - 48"

definition decimal_value :: "string \<Rightarrow> nat" where
  "decimal_value s = foldl (\<lambda>n c. 10 * n + digit_value c) 0 s"

section \<open>Observations and well-formed states\<close>

text \<open>
  A well-formed object store: no two records share a key and the records are in key
  order, as IndexedDB keeps a store with key path \<open>id\<close>, and every key is a
  non-empty string, as every write of \<open>saveThreads\<close> leaves it.
\<close>

definition store_ok :: "idb \<Rightarrow> bool" where
  "store_ok l =
     (list_all (\<lambda>t. truthy_id (thread_id t)) (records l)
      \<and> distinct (map key_of (records l))
      \<and> sorted (map key_of (records l)))"

text \<open>The connection is cached or can be opened.\<close>

definition usable :: "idb \<Rightarrow> bool" where
  "usable l = (db_handle l \<or> (indexedDB_present l \<and> open_ok l))"

text \<open>No failure of the environment: the active engine can be reached and its requests
  succeed (for the remote engine this includes a session).\<close>

definition engine_works :: "storage \<Rightarrow> bool" where
  "engine_works s =
     (if currentStorage s = IndexedDBStorage
      then usable (localdb s) \<and> \<not> read_error (localdb s) \<and> \<not> write_error (localdb s)
      else currentUser (remotedb s) \<noteq> None \<and> \<not> net_error (remotedb s))"

text \<open>
  The thread collection of the active engine, and the thread it holds under an id (on
  the remote engine: the document the id refers to, none when the id is no reference).
\<close>

definition collection :: "storage \<Rightarrow> thread list" where
  "collection s =
     (if currentStorage s = IndexedDBStorage then records (localdb s)
      else map snd (filter (\<lambda>p. CHR ''/'' \<notin> set (fst p)) (docs (remotedb s))))"

definition stored_thread :: "storage \<Rightarrow> string \<Rightarrow> thread option" where
  "stored_thread s threadId =
     (if currentStorage s = IndexedDBStorage
      then find (\<lambda>t. thread_id t = Str threadId) (records (localdb s))
      else (case doc_ref (Str threadId) of
              None \<Rightarrow> None
            | Some k \<Rightarrow> map_of (docs (remotedb s)) k))"

text \<open>\<open>isAnnotated == (annotations.length > 0)\<close> on an annotations array.\<close>

definition derived_flag_ok :: "thread \<Rightarrow> bool" where
  "derived_flag_ok t =
     (case annotations t of
        AnnotationArray xs \<Rightarrow> isAnnotated t = Some (length xs > 0)
      | _ \<Rightarrow> False)"

text \<open>Sequences of annotation operations, and the thread found in the store after each
  operation that succeeded.\<close>

datatype annotation_op = Append string annotation string | Delete string int

fun apply_annotation_op :: "storage \<Rightarrow> annotation_op \<Rightarrow> (storage_error + bool) \<times> storage" where
  "apply_annotation_op s (Append threadId annotationData now) =
     updateAnnotation s threadId annotationData now"
| "apply_annotation_op s (Delete threadId annotationIndex) =
     deleteAnnotation s threadId annotationIndex"

fun op_thread :: "annotation_op \<Rightarrow> string" where
  "op_thread (Append threadId annotationData now) = threadId"
| "op_thread (Delete threadId annotationIndex) = threadId"

fun written_back :: "storage \<Rightarrow> annotation_op list \<Rightarrow> thread option list" where
  "written_back s [] = []"
| "written_back s (x # xs) =
     (case apply_annotation_op s x of
        (Inl e, s') \<Rightarrow> written_back s' xs
      | (Inr ok, s') \<Rightarrow> stored_thread s' (op_thread x) # written_back s' xs)"

text \<open>The structurally valid records of an input array: the objects with a non-empty id.\<close>

definition valid_records :: "js_value list \<Rightarrow> thread list" where
  "valid_records vs =
     concat (map (\<lambda>v. case v of
                         JsObject t \<Rightarrow> (case thread_id t of
                                          Str k \<Rightarrow> if k = [] then [] else [t]
                                        | _ \<Rightarrow> [])
                       | _ \<Rightarrow> []) vs)"

section \<open>Example states\<close>

definition empty_thread :: thread where
  "empty_thread = \<lparr> thread_id = Undefined, title = None, createdAt = None, updatedAt = None,
     isAnnotated = None, messages = [], annotations = NoAnnotations, lastModifiedBy = None,
     lastModifiedByUid = None, importedBy = None, importedByUid = None \<rparr>"

definition thread_t1 :: thread where
  "thread_t1 = empty_thread\<lparr>thread_id := Str ''t1''\<rparr>"

definition good_annotation :: annotation where
  "good_annotation = \<lparr> rating = Some ''good'', ann_notes = Some ''ok'', tags = Some [''x''],
     timestamp = Some ''2020-01-01T00:00:00.000Z'', createdBy = None, createdByUid = None \<rparr>"

definition bad_annotation :: annotation where
  "bad_annotation = \<lparr> rating = Some ''bad'', ann_notes = None, tags = None,
     timestamp = Some ''2020-01-02T00:00:00.000Z'', createdBy = None, createdByUid = None \<rparr>"

definition reviewer :: user where
  "reviewer = \<lparr> email = Some ''reviewer@example.org'', uid = ''u1'' \<rparr>"

definition signed_out :: remote where
  "signed_out = \<lparr> currentUser = None,
     docs = [(''t1'', empty_thread\<lparr>thread_id := Str ''t1''\<rparr>)],
     net_error = False, net_calls = 0 \<rparr>"

definition signed_in :: remote where
  "signed_in = \<lparr> currentUser = Some reviewer, docs = [(''t1'', thread_t1)],
     net_error = False, net_calls = 0 \<rparr>"

definition local_store :: idb where
  "local_store = \<lparr> db_handle = False, indexedDB_present = True, open_ok = True,
     read_error = False, write_error = False, records = [thread_t1],
     idb_reads = 0, idb_writes = 0 \<rparr>"

definition local_session :: storage where
  "local_session = \<lparr> currentStorage = IndexedDBStorage, localdb = local_store,
     remotedb = signed_out \<rparr>"

definition annotated_session :: storage where
  "annotated_session = local_session\<lparr>localdb := local_store\<lparr>records :=
     [thread_t1\<lparr>isAnnotated := Some True,
                annotations := AnnotationArray [good_annotation, bad_annotation]\<rparr>]\<rparr>\<rparr>"

definition remote_session :: storage where
  "remote_session = \<lparr> currentStorage = RemoteStorage, localdb = local_store,
     remotedb = signed_in \<rparr>"


definition expired_session :: storage where
  "expired_session = remote_session\<lparr>remotedb := signed_out\<rparr>"

definition offline_session :: storage where
  "offline_session = remote_session\<lparr>remotedb := signed_in\<lparr>net_error := True\<rparr>\<rparr>"

definition quoted_annotation :: annotation where
  "quoted_annotation = \<lparr> rating = Some ''good'',
     ann_notes = Some (''say '' @ [CHR 0x22] @ ''ok'' @ [CHR 0x22]), tags = Some [''x'', ''y''],
     timestamp = Some ''2020-01-03T00:00:00.000Z'', createdBy = Some ''someone@example.org'',
     createdByUid = Some ''u9'' \<rparr>"

definition legacy_thread :: thread where
  "legacy_thread = \<lparr> thread_id = Str ''t7'', title = Some ''Refund request'',
     createdAt = Some (Iso ''2023-11-30T08:00:00.000Z''), updatedAt = None,
     isAnnotated = Some True,
     messages = [\<lparr> role = ''human'', content = ''Where is my refund?'' \<rparr>],
     annotations = SingleAnnotation bad_annotation, lastModifiedBy = None,
     lastModifiedByUid = None, importedBy = None, importedByUid = None \<rparr>"

definition legacy_local_session :: storage where
  "legacy_local_session = local_session\<lparr>localdb := local_store\<lparr>records :=
     [thread_t1, legacy_thread]\<rparr>\<rparr>"

definition legacy_remote_session :: storage where
  "legacy_remote_session = \<lparr> currentStorage = RemoteStorage,
     localdb = local_store\<lparr>records := [thread_t1, legacy_thread]\<rparr>,
     remotedb = signed_in\<lparr>docs := [(''t7'', legacy_thread), (''t1'', thread_t1)]\<rparr> \<rparr>"

definition slash_session :: storage where
  "slash_session = remote_session\<lparr>localdb := local_store\<lparr>records :=
     [thread_t1\<lparr>thread_id := Str ''a/b''\<rparr>]\<rparr>\<rparr>"

definition null_id_thread :: thread where
  "null_id_thread = empty_thread\<lparr>thread_id := Null,
     annotations := AnnotationArray [good_annotation, quoted_annotation]\<rparr>"

section \<open>Auxiliary facts about the engines\<close>

lemma init_closed:
  "IndexedDBStorage_init l = (usable l, if usable l then l\<lparr>db_handle := True\<rparr> else l)"
  by (cases l) (auto simp: IndexedDBStorage_init_def usable_def)

lemma getThreads_closed:
  "IndexedDBStorage_getThreads l =
     (if usable l
      then (if read_error l then Inl IdbError else Inr (records l),
            l\<lparr>db_handle := True, idb_reads := Suc (idb_reads l)\<rparr>)
      else (Inr [], l))"
  by (simp add: IndexedDBStorage_getThreads_def init_closed)

lemma getThreadById_closed:
  "IndexedDBStorage_getThreadById l k =
     (if usable l
      then (if read_error l then Inl IdbError
            else Inr (find (\<lambda>t. thread_id t = Str k) (records l)),
            l\<lparr>db_handle := True, idb_reads := Suc (idb_reads l)\<rparr>)
      else (Inr None, l))"
  by (simp add: IndexedDBStorage_getThreadById_def init_closed)

lemma cleaned_simps:
  "cleaned JsNull = False" "cleaned JsPrimitive = False"
  "cleaned (JsObject t) = truthy_id (thread_id t)"
  by (simp_all add: cleaned_def)

lemma valid_records_simps:
  "valid_records [] = []"
  "valid_records (JsNull # vs) = valid_records vs"
  "valid_records (JsPrimitive # vs) = valid_records vs"
  "valid_records (JsObject t # vs) =
     (if truthy_id (thread_id t) then t # valid_records vs else valid_records vs)"
  by (simp_all add: valid_records_def truthy_id_def split: id_value.splits)

lemma cleaned_valid_records:
  "List.map_filter object_of (filter cleaned vs) = valid_records vs"
proof (induction vs)
  case Nil
  show ?case by (simp add: List.map_filter_simps valid_records_simps)
next
  case (Cons v vs)
  then show ?case
    by (cases v) (simp_all add: List.map_filter_simps valid_records_simps cleaned_simps object_of_def)
qed

lemma saveThreads_closed:
  "IndexedDBStorage_saveThreads l vs =
     (if usable l
      then (if write_error l \<or> \<not> distinct (map key_of (valid_records vs))
            then (Inl IdbError, l\<lparr>db_handle := True, idb_writes := Suc (idb_writes l)\<rparr>)
            else (Inr True, l\<lparr>db_handle := True, idb_writes := Suc (idb_writes l),
                               records := sort_key key_of (valid_records vs)\<rparr>))
      else (Inr False, l))"
  by (simp add: IndexedDBStorage_saveThreads_def init_closed cleaned_valid_records Let_def)

lemma valid_records_objects:
  "list_all (\<lambda>t. truthy_id (thread_id t)) ts \<Longrightarrow> valid_records (map JsObject ts) = ts"
  by (induction ts) (simp_all add: valid_records_simps)

lemma valid_records_truthy: "list_all (\<lambda>t. truthy_id (thread_id t)) (valid_records vs)"
proof (induction vs)
  case Nil
  show ?case by (simp add: valid_records_simps)
next
  case (Cons v vs)
  then show ?case by (cases v) (simp_all add: valid_records_simps)
qed

lemma store_ok_sort:
  assumes "distinct (map key_of ts)" "list_all (\<lambda>t. truthy_id (thread_id t)) ts"
  shows "store_ok (l\<lparr>records := sort_key key_of ts\<rparr>)"
  using assms by (simp add: store_ok_def list_all_iff distinct_map inj_on_def) 


lemma find_findIndex:
  "find P xs = Some t \<Longrightarrow> \<exists>i. findIndex P xs = Some i \<and> i < length xs \<and> xs ! i = t \<and> P t"
  by (induction xs) (auto split: if_splits)

lemma find_None_findIndex: "find P xs = None \<Longrightarrow> findIndex P xs = None"
  by (induction xs) (auto split: if_splits)

lemma find_list_update:
  "findIndex P xs = Some i \<Longrightarrow> P u \<Longrightarrow> find P (xs[i := u]) = Some u"
  by (induction xs arbitrary: i) (auto split: if_splits)

lemma keys_list_update:
  "i < length xs \<Longrightarrow> key_of u = key_of (xs ! i) \<Longrightarrow> map key_of (xs[i := u]) = map key_of xs"
  by (simp add: map_update list_update_same_conv)

lemma key_of_Str: "thread_id t = Str k \<Longrightarrow> key_of t = k"
  by (simp add: key_of_def)

lemma truthy_list_update:
  "list_all (\<lambda>t. truthy_id (thread_id t)) xs \<Longrightarrow> i < length xs \<Longrightarrow>
   thread_id u = thread_id (xs ! i) \<Longrightarrow> list_all (\<lambda>t. truthy_id (thread_id t)) (xs[i := u])"
  by (auto simp: list_all_length nth_list_update)

lemma usable_opened [simp]: "usable (l\<lparr>db_handle := True, idb_reads := n\<rparr>)"
  by (simp add: usable_def)

lemma updateThread_local_works:
  assumes loc: "currentStorage s = IndexedDBStorage"
    and works: "engine_works s"
    and ok: "store_ok (localdb s)"
    and found: "stored_thread s k = Some t"
    and same_id: "thread_id (spread_updates t u) = Str k"
  shows "\<exists>s' i. updateThread s k u = (Inr True, s')
           \<and> currentStorage s' = IndexedDBStorage
           \<and> findIndex (\<lambda>t. thread_id t = Str k) (records (localdb s)) = Some i
           \<and> i < length (records (localdb s)) \<and> records (localdb s) ! i = t
           \<and> records (localdb s') = (records (localdb s))[i := spread_updates t u]
           \<and> stored_thread s' k = Some (spread_updates t u)
           \<and> store_ok (localdb s') \<and> engine_works s' \<and> remotedb s' = remotedb s"
proof -
  let ?P = "\<lambda>t. thread_id t = Str k"
  let ?xs = "records (localdb s)"
  let ?u = "spread_updates t u"
  from found loc have f: "find ?P ?xs = Some t" by (simp add: stored_thread_def)
  from find_findIndex [OF f] obtain i where
    i: "findIndex ?P ?xs = Some i" "i < length ?xs" "?xs ! i = t" "thread_id t = Str k"
    by blast
  from works loc have w: "usable (localdb s)" "\<not> read_error (localdb s)" "\<not> write_error (localdb s)"
    by (simp_all add: engine_works_def)
  from ok have o: "list_all (\<lambda>t. truthy_id (thread_id t)) ?xs" "distinct (map key_of ?xs)"
    "sorted (map key_of ?xs)" by (simp_all add: store_ok_def)
  have keys: "map key_of (?xs[i := ?u]) = map key_of ?xs"
    using i same_id by (intro keys_list_update) (simp_all add: key_of_Str)
  have truthy: "list_all (\<lambda>t. truthy_id (thread_id t)) (?xs[i := ?u])"
    using o(1) i same_id by (intro truthy_list_update) simp_all
  have valid: "valid_records (map JsObject (?xs[i := ?u])) = ?xs[i := ?u]"
    using truthy by (rule valid_records_objects)
  have sorted: "sort_key key_of (?xs[i := ?u]) = ?xs[i := ?u]"
    using o(3) keys by (simp add: sort_key_id_if_sorted)
  have lookup: "find ?P (?xs[i := ?u]) = Some ?u"
    using i(1) same_id by (rule find_list_update)
  show ?thesis
    using loc w f i(1,2,3) valid sorted lookup keys o truthy
    by (simp add: updateThread_def on_local_def getThreadById_closed getThreads_closed
        saveThreads_closed stored_thread_def store_ok_def engine_works_def usable_def)
qed


lemma store_ok_records: "records l' = records l \<Longrightarrow> store_ok l' = store_ok l"
  by (simp add: store_ok_def)

lemma store_ok_saveThreads:
  "store_ok l \<Longrightarrow> store_ok (snd (IndexedDBStorage_saveThreads l vs))"
proof -
  assume ok: "store_ok l"
  have unchanged: "store_ok (l\<lparr>db_handle := True, idb_writes := Suc (idb_writes l)\<rparr>)"
    using ok by (simp add: store_ok_def)
  have "distinct (map key_of (valid_records vs)) \<Longrightarrow>
        store_ok (l\<lparr>db_handle := True, idb_writes := Suc (idb_writes l),
                    records := sort_key key_of (valid_records vs)\<rparr>)"
    using store_ok_sort [OF _ valid_records_truthy, of vs] by (simp add: store_ok_def)
  with ok unchanged show ?thesis by (simp add: saveThreads_closed)
qed

lemma store_ok_getThreads: "store_ok (snd (IndexedDBStorage_getThreads l)) = store_ok l"
  by (simp add: getThreads_closed store_ok_def)

lemma store_ok_getThreadById: "store_ok (snd (IndexedDBStorage_getThreadById l k)) = store_ok l"
  by (simp add: getThreadById_closed store_ok_def)

lemma snd_on_local: "localdb (snd (on_local f s)) = snd (f (localdb s))"
  by (simp add: on_local_def split: prod.splits)

lemma snd_on_remote: "localdb (snd (on_remote f s)) = localdb s"
  by (simp add: on_remote_def split: prod.splits)

lemma store_ok_getThread: "store_ok (localdb (snd (getThread s k))) = store_ok (localdb s)"
  by (simp add: getThread_def snd_on_local snd_on_remote store_ok_getThreadById)

lemma store_ok_updateThread:
  assumes "store_ok (localdb s)"
  shows "store_ok (localdb (snd (updateThread s k u)))"
proof (cases "currentStorage s = IndexedDBStorage")
  case False
  with assms show ?thesis by (simp add: updateThread_def snd_on_remote)
next
  case True
  let ?l = "localdb s"
  obtain r1 l1 where g1: "IndexedDBStorage_getThreadById ?l k = (r1, l1)" by (cases "IndexedDBStorage_getThreadById ?l k")
  have ok1: "store_ok l1" using assms store_ok_getThreadById [of ?l k] g1 by simp
  obtain r2 l2 where g2: "IndexedDBStorage_getThreads l1 = (r2, l2)" by (cases "IndexedDBStorage_getThreads l1")
  have ok2: "store_ok l2" using ok1 store_ok_getThreads [of l1] g2 by simp
  have ok3: "store_ok l'" if "IndexedDBStorage_saveThreads l2 vs = (r, l')" for vs r l'
    using store_ok_saveThreads [OF ok2, of vs] that by simp
  show ?thesis
    using True g1 g2 ok1 ok2
    by (auto simp: updateThread_def on_local_def Let_def dest: ok3
        split: prod.splits sum.splits option.splits)
qed


lemma store_ok_updateAnnotation:
  assumes "store_ok (localdb s)"
  shows "store_ok (localdb (snd (updateAnnotation s k a now)))"
proof -
  obtain r1 s1 where g: "getThread s k = (r1, s1)" by (cases "getThread s k")
  have ok1: "store_ok (localdb s1)" using assms store_ok_getThread [of s k] g by simp
  show ?thesis
    using g ok1 store_ok_updateThread [OF ok1]
    by (simp add: updateAnnotation_def Let_def split: sum.splits option.splits)
qed

lemma store_ok_deleteAnnotation:
  assumes "store_ok (localdb s)"
  shows "store_ok (localdb (snd (deleteAnnotation s k i)))"
proof -
  obtain r1 s1 where g: "getThread s k = (r1, s1)" by (cases "getThread s k")
  have ok1: "store_ok (localdb s1)" using assms store_ok_getThread [of s k] g by simp
  show ?thesis
    using g ok1 store_ok_updateThread [OF ok1]
    by (simp add: deleteAnnotation_def Let_def split: sum.splits option.splits)
qed

lemma map_of_put_doc: "map_of (put_doc k v ds) k = Some v"
  by (simp add: put_doc_def)

lemma stored_thread_remote:
  assumes "currentStorage s = RemoteStorage" and "stored_thread s k = Some t"
  shows "\<exists>k'. doc_ref (Str k) = Some k' \<and> map_of (docs (remotedb s)) k' = Some t"
  using assms by (auto simp: stored_thread_def split: option.splits)

lemma updateThread_remote_works:
  assumes rem: "currentStorage s = RemoteStorage"
    and works: "engine_works s"
    and found: "stored_thread s k = Some t"
  shows "\<exists>s' usr k'. currentUser (remotedb s) = Some usr \<and> doc_ref (Str k) = Some k'
           \<and> updateThread s k u = (Inr True, s')
           \<and> currentStorage s' = RemoteStorage
           \<and> docs (remotedb s') =
               (k', spread_updates t (u\<lparr>
                      upd_lastModifiedBy := Some (email usr),
                      upd_lastModifiedByUid := Some (Some (uid usr)),
                      upd_updatedAt := Some (Some ServerTimestamp)\<rparr>))
               # filter (\<lambda>p. fst p \<noteq> k') (docs (remotedb s))
           \<and> stored_thread s' k =
               Some (spread_updates t (u\<lparr>
                      upd_lastModifiedBy := Some (email usr),
                      upd_lastModifiedByUid := Some (Some (uid usr)),
                      upd_updatedAt := Some (Some ServerTimestamp)\<rparr>))
           \<and> localdb s' = localdb s \<and> engine_works s'"
proof -
  from works rem obtain usr where usr: "currentUser (remotedb s) = Some usr"
    and net: "\<not> net_error (remotedb s)" by (auto simp: engine_works_def)
  from stored_thread_remote [OF rem found] obtain k' where
    k': "doc_ref (Str k) = Some k'" and f: "map_of (docs (remotedb s)) k' = Some t" by blast
  show ?thesis
    using rem usr net f k'
    by (simp add: updateThread_def on_remote_def remoteStorage_updateThread_def getDoc_def
        updateDoc_def stored_thread_def engine_works_def put_doc_def)
qed

lemma updateThread_works:
  assumes works: "engine_works s"
    and ok: "store_ok (localdb s)"
    and found: "stored_thread s k = Some t"
    and same_id: "currentStorage s = IndexedDBStorage \<Longrightarrow> thread_id (spread_updates t u) = Str k"
  shows "\<exists>s' t'. updateThread s k u = (Inr True, s')
           \<and> currentStorage s' = currentStorage s
           \<and> stored_thread s' k = Some t'
           \<and> annotations t' = spread_field (annotations t) (upd_annotations u)
           \<and> isAnnotated t' = spread_field (isAnnotated t) (upd_isAnnotated u)
           \<and> store_ok (localdb s') \<and> engine_works s'"
proof (cases "currentStorage s")
  case IndexedDBStorage
  from updateThread_local_works [OF IndexedDBStorage works ok found same_id [OF IndexedDBStorage]]
  obtain s' where "updateThread s k u = (Inr True, s')" "currentStorage s' = IndexedDBStorage"
    "stored_thread s' k = Some (spread_updates t u)" "store_ok (localdb s')" "engine_works s'"
    by blast
  with IndexedDBStorage show ?thesis by (simp add: spread_updates_def)
next
  case RemoteStorage
  from updateThread_remote_works [OF RemoteStorage works found, of u] ok RemoteStorage
  show ?thesis by (auto simp: spread_updates_def)
qed

lemma getThread_found:
  assumes "engine_works s" and "stored_thread s k = Some t"
  shows "\<exists>s1. getThread s k = (Inr (Some t), s1)
           \<and> engine_works s1 \<and> currentStorage s1 = currentStorage s
           \<and> records (localdb s1) = records (localdb s)
           \<and> docs (remotedb s1) = docs (remotedb s)
           \<and> currentUser (remotedb s1) = currentUser (remotedb s)
           \<and> (currentStorage s = IndexedDBStorage \<longrightarrow> remotedb s1 = remotedb s)
           \<and> (currentStorage s = RemoteStorage \<longrightarrow> localdb s1 = localdb s)"
proof (cases "currentStorage s")
  case IndexedDBStorage
  with assms show ?thesis
    by (simp add: getThread_def on_local_def getThreadById_closed engine_works_def
        stored_thread_def usable_def)
next
  case RemoteStorage
  with assms obtain usr where "currentUser (remotedb s) = Some usr" "\<not> net_error (remotedb s)"
    by (auto simp: engine_works_def)
  moreover from stored_thread_remote [OF RemoteStorage assms(2)] obtain k' where
    "doc_ref (Str k) = Some k'" "map_of (docs (remotedb s)) k' = Some t" by blast
  ultimately show ?thesis using RemoteStorage
    by (simp add: getThread_def on_remote_def remoteStorage_getThread_def getDoc_def
        engine_works_def)
qed

lemma getThread_missing:
  assumes "engine_works s" and "stored_thread s k = None"
  shows "fst (getThread s k) =
           (if currentStorage s = RemoteStorage \<and> doc_ref (Str k) = None
            then Inl InvalidArgument else Inr None)"
proof (cases "currentStorage s")
  case IndexedDBStorage
  with assms show ?thesis
    by (simp add: getThread_def on_local_def getThreadById_closed engine_works_def
        stored_thread_def)
next
  case RemoteStorage
  with assms obtain usr where "currentUser (remotedb s) = Some usr" "\<not> net_error (remotedb s)"
    by (auto simp: engine_works_def)
  with RemoteStorage assms(2) show ?thesis
    by (simp add: getThread_def on_remote_def remoteStorage_getThread_def getDoc_def
        stored_thread_def split: option.splits)
qed

lemma stored_thread_same:
  "currentStorage s1 = currentStorage s \<Longrightarrow> records (localdb s1) = records (localdb s) \<Longrightarrow>
   docs (remotedb s1) = docs (remotedb s) \<Longrightarrow> stored_thread s1 k = stored_thread s k"
  by (simp add: stored_thread_def split: option.splits)

lemma spread_own_key: "spread_field v (own_key v) = v"
  by (simp add: spread_field_def own_key_def split: option.splits)

lemma stored_thread_local_id:
  "currentStorage s = IndexedDBStorage \<Longrightarrow> stored_thread s k = Some t \<Longrightarrow> thread_id t = Str k"
  by (auto simp: stored_thread_def dest: find_findIndex)

lemma annotation_write_works:
  assumes works: "engine_works s"
    and ok: "store_ok (localdb s)"
    and found: "stored_thread s k = Some t"
  shows "\<exists>s' t'. updateThread s k
             (as_updates (t\<lparr>isAnnotated := Some b, annotations := AnnotationArray xs\<rparr>))
           = (Inr True, s')
           \<and> currentStorage s' = currentStorage s
           \<and> stored_thread s' k = Some t'
           \<and> annotations t' = AnnotationArray xs
           \<and> isAnnotated t' = Some b
           \<and> store_ok (localdb s') \<and> engine_works s'"
proof -
  let ?u = "as_updates (t\<lparr>isAnnotated := Some b, annotations := AnnotationArray xs\<rparr>)"
  have id: "thread_id (spread_updates t ?u) = Str k" if "currentStorage s = IndexedDBStorage"
    using stored_thread_local_id [OF that found]
    by (simp add: spread_updates_def as_updates_def spread_field_def)
  have a: "spread_field (annotations t) (upd_annotations ?u) = AnnotationArray xs"
    by (simp add: as_updates_def spread_field_def)
  have f: "spread_field (isAnnotated t) (upd_isAnnotated ?u) = Some b"
    by (simp add: as_updates_def spread_field_def own_key_def)
  from updateThread_works [OF works ok found id] a f show ?thesis by simp
qed

lemma updateAnnotation_works:
  assumes works: "engine_works s"
    and ok: "store_ok (localdb s)"
    and found: "stored_thread s k = Some t"
  shows "\<exists>s' t'. updateAnnotation s k a now = (Inr True, s')
           \<and> currentStorage s' = currentStorage s
           \<and> stored_thread s' k = Some t'
           \<and> annotations t' =
               AnnotationArray (annotation_seq (annotations t) @ [a\<lparr>timestamp := Some now\<rparr>])
           \<and> isAnnotated t' = Some True
           \<and> store_ok (localdb s') \<and> engine_works s'"
proof -
  from getThread_found [OF works found] obtain s1 where
    g: "getThread s k = (Inr (Some t), s1)" and w1: "engine_works s1"
    and c1: "currentStorage s1 = currentStorage s"
    and r1: "records (localdb s1) = records (localdb s)"
    and d1: "docs (remotedb s1) = docs (remotedb s)" by blast
  have ok1: "store_ok (localdb s1)" using ok r1 by (simp add: store_ok_def)
  have f1: "stored_thread s1 k = Some t" using stored_thread_same [OF c1 r1 d1] found by simp
  from annotation_write_works [OF w1 ok1 f1] c1 g found
  show ?thesis by (simp add: updateAnnotation_def Let_def)
qed

lemma annotations_then_flag:
  "t\<lparr>annotations := a, isAnnotated := b\<rparr> = t\<lparr>isAnnotated := b, annotations := a\<rparr>"
  by (cases t) simp

lemma deleteAnnotation_works:
  assumes works: "engine_works s"
    and ok: "store_ok (localdb s)"
    and found: "stored_thread s k = Some t"
  shows "\<exists>s' t'. deleteAnnotation s k i = (Inr True, s')
           \<and> currentStorage s' = currentStorage s
           \<and> stored_thread s' k = Some t'
           \<and> annotations t' =
               AnnotationArray
                 (if int (length (annotation_seq (annotations t))) > i
                  then splice1 (annotation_seq (annotations t)) i
                  else annotation_seq (annotations t))
           \<and> derived_flag_ok t'
           \<and> store_ok (localdb s') \<and> engine_works s'"
proof -
  from getThread_found [OF works found] obtain s1 where
    g: "getThread s k = (Inr (Some t), s1)" and w1: "engine_works s1"
    and c1: "currentStorage s1 = currentStorage s"
    and r1: "records (localdb s1) = records (localdb s)"
    and d1: "docs (remotedb s1) = docs (remotedb s)" by blast
  have ok1: "store_ok (localdb s1)" using ok r1 by (simp add: store_ok_def)
  have f1: "stored_thread s1 k = Some t" using stored_thread_same [OF c1 r1 d1] found by simp
  let ?xs = "if int (length (annotation_seq (annotations t))) > i
             then splice1 (annotation_seq (annotations t)) i
             else annotation_seq (annotations t)"
  from annotation_write_works [OF w1 ok1 f1, where b = "length ?xs > 0" and xs = ?xs] obtain s' t' where
    "updateThread s1 k (as_updates (t\<lparr>isAnnotated := Some (length ?xs > 0),
        annotations := AnnotationArray ?xs\<rparr>)) = (Inr True, s')"
    "currentStorage s' = currentStorage s1" "stored_thread s' k = Some t'"
    "annotations t' = AnnotationArray ?xs" "isAnnotated t' = Some (length ?xs > 0)"
    "store_ok (localdb s')" "engine_works s'" by blast
  with c1 g found show ?thesis
    by (cases "i < int (length (annotation_seq (annotations t)))")
       (simp_all add: deleteAnnotation_def Let_def derived_flag_ok_def annotations_then_flag)
qed

lemma updateThread_Inr:
  assumes "updateThread s k u = (Inr ok, s')"
  shows "engine_works s \<and> stored_thread s k \<noteq> None"
proof (cases "currentStorage s")
  case IndexedDBStorage
  with assms show ?thesis
    by (auto simp: updateThread_def on_local_def getThreadById_closed getThreads_closed
        saveThreads_closed engine_works_def stored_thread_def Let_def
        split: if_splits option.splits)
next
  case RemoteStorage
  with assms show ?thesis
    by (auto simp: updateThread_def on_remote_def remoteStorage_updateThread_def getDoc_def
        updateDoc_def engine_works_def stored_thread_def Let_def
        split: if_splits option.splits)
qed

lemma getThread_Some:
  assumes "getThread s k = (Inr (Some t), s1)"
  shows "stored_thread s k = Some t \<and> currentStorage s1 = currentStorage s
       \<and> records (localdb s1) = records (localdb s) \<and> docs (remotedb s1) = docs (remotedb s)
       \<and> (engine_works s1 \<longrightarrow> engine_works s)"
proof (cases "currentStorage s")
  case IndexedDBStorage
  with assms show ?thesis
    by (auto simp: getThread_def on_local_def getThreadById_closed engine_works_def
        stored_thread_def split: if_splits)
next
  case RemoteStorage
  with assms show ?thesis
    by (auto simp: getThread_def on_remote_def remoteStorage_getThread_def getDoc_def
        engine_works_def stored_thread_def split: if_splits option.splits)
qed

lemma annotation_op_Inr:
  assumes "apply_annotation_op s x = (Inr ok, s')"
  shows "engine_works s \<and> stored_thread s (op_thread x) \<noteq> None"
proof (cases x)
  case (Append k a now)
  with assms obtain t s1 where g: "getThread s k = (Inr (Some t), s1)"
    and u: "updateThread s1 k (as_updates (t\<lparr>isAnnotated := Some True,
              annotations := AnnotationArray
                (annotation_seq (annotations t) @ [a\<lparr>timestamp := Some now\<rparr>])\<rparr>)) = (Inr ok, s')"
    by (auto simp: updateAnnotation_def Let_def split: prod.splits sum.splits option.splits)
  from getThread_Some [OF g] updateThread_Inr [OF u] Append show ?thesis by simp
next
  case (Delete k i)
  with assms obtain t s1 u where g: "getThread s k = (Inr (Some t), s1)"
    and u: "updateThread s1 k u = (Inr ok, s')"
    by (auto simp: deleteAnnotation_def Let_def split: prod.splits sum.splits option.splits)
  from getThread_Some [OF g] updateThread_Inr [OF u] Delete show ?thesis by simp
qed

lemma annotation_op_derived_flag:
  assumes ok: "store_ok (localdb s)"
    and step: "apply_annotation_op s x = (Inr r, s')"
  shows "\<exists>t. stored_thread s' (op_thread x) = Some t \<and> derived_flag_ok t"
proof -
  from annotation_op_Inr [OF step] obtain t where
    works: "engine_works s" and found: "stored_thread s (op_thread x) = Some t" by auto
  show ?thesis
  proof (cases x)
    case (Append k a now)
    from updateAnnotation_works [OF works ok, of k t a now] found Append step
    show ?thesis by (auto simp: derived_flag_ok_def)
  next
    case (Delete k i)
    from deleteAnnotation_works [OF works ok, of k t i] found Delete step
    show ?thesis by auto
  qed
qed

lemma store_ok_annotation_op:
  "store_ok (localdb s) \<Longrightarrow> store_ok (localdb (snd (apply_annotation_op s x)))"
  by (cases x) (simp_all add: store_ok_updateAnnotation store_ok_deleteAnnotation)

lemma annotation_seq_of_thread: "annotation_seq (annotations t) = annotations_of_thread t"
  by (simp add: annotation_seq_def annotations_of_thread_def split: annotations_field.splits)

section \<open>The remote engine requires a session\<close>

text \<open>
  Claim C5. Without an authenticated session (\<open>auth.currentUser\<close> is null) each of the
  six operations of the remote engine returns the error "User not authenticated" and
  leaves the remote state as it was: no document changes and no Firestore request is
  issued (the request counter is part of the state).
\<close>

theorem remote_operations_require_session:
  assumes "currentUser r = None"
  shows "remoteStorage_saveThread r t = (Inl UserNotAuthenticated, r)
       \<and> remoteStorage_getThreads r = (Inl UserNotAuthenticated, r)
       \<and> remoteStorage_getThread r threadId = (Inl UserNotAuthenticated, r)
       \<and> remoteStorage_updateThread r threadId updates = (Inl UserNotAuthenticated, r)
       \<and> remoteStorage_deleteThread r threadId = (Inl UserNotAuthenticated, r)
       \<and> remoteStorage_importThreads r threads = (Inl UserNotAuthenticated, r)"
  using assms
  by (simp add: remoteStorage_saveThread_def remoteStorage_getThreads_def
      remoteStorage_getThread_def remoteStorage_updateThread_def
      remoteStorage_deleteThread_def remoteStorage_importThreads_def)

theorem remote_operations_require_session_witness:
  "currentUser signed_out = None
   \<and> remoteStorage_saveThread signed_out (empty_thread\<lparr>thread_id := Str ''t2''\<rparr>)
       = (Inl UserNotAuthenticated, signed_out)
   \<and> remoteStorage_getThreads signed_out = (Inl UserNotAuthenticated, signed_out)
   \<and> remoteStorage_getThread signed_out ''t1'' = (Inl UserNotAuthenticated, signed_out)
   \<and> remoteStorage_updateThread signed_out ''t1'' (as_updates empty_thread)
       = (Inl UserNotAuthenticated, signed_out)
   \<and> remoteStorage_deleteThread signed_out ''t1'' = (Inl UserNotAuthenticated, signed_out)
   \<and> remoteStorage_importThreads signed_out [empty_thread\<lparr>thread_id := Str ''t2''\<rparr>]
       = (Inl UserNotAuthenticated, signed_out)
   \<and> docs signed_out \<noteq> [] \<and> net_calls signed_out = 0"
proof -
  have h: "currentUser signed_out = None" by (simp add: signed_out_def)
  show ?thesis
    using h remote_operations_require_session [OF h] by (simp add: signed_out_def)
qed

section \<open>The CSV export\<close>

lemma replace_quotes_concat:
  "replace_quotes s = concat (map (\<lambda>c. if c = CHR 0x22 then [CHR 0x22, CHR 0x22] else [c]) s)"
  by (induction s) simp_all

lemma join_semicolon: "join '';'' ts = semicolon_separated ts"
  by (induction ts rule: semicolon_separated.induct) simp_all

lemma csv_row_line: "join '','' (csv_row t i a) = csv_line (t, i, a)"
  by (simp add: csv_row_def csv_line_def notes_field_def tags_field_def quoted_note_def
      default_title_def replace_quotes_concat join_semicolon truthy_str_def string_or_empty_def
      element_string_def template_string_def
      split: option.splits id_value.splits)

lemma push_rows_enumerate:
  "push_rows t as i rows = rows @ map (\<lambda>(j, a). csv_row t j a) (enumerate i as)"
  by (induction as arbitrary: i rows) simp_all

lemma thread_rows_pairs:
  "map (join '','') (thread_rows t rows) =
     map (join '','') rows @ map csv_line (thread_annotation_pairs [t])"
  by (cases "annotations t")
     (auto simp: thread_rows_def push_rows_enumerate thread_annotation_pairs_def
        annotation_seq_def annotations_of_thread_def csv_row_line comp_def split_def)

lemma thread_annotation_pairs_Cons:
  "thread_annotation_pairs (t # ts) = thread_annotation_pairs [t] @ thread_annotation_pairs ts"
  by (simp add: thread_annotation_pairs_def)

lemma fold_thread_rows:
  "map (join '','') (fold thread_rows ts rows) =
     map (join '','') rows @ map csv_line (thread_annotation_pairs ts)"
proof (induction ts arbitrary: rows)
  case Nil
  show ?case by (simp add: thread_annotation_pairs_def)
next
  case (Cons t ts)
  have "map (join '','') (fold thread_rows (t # ts) rows) =
        map (join '','') (thread_rows t rows) @ map csv_line (thread_annotation_pairs ts)"
    using Cons.IH [of "thread_rows t rows"] by simp
  also have "\<dots> = map (join '','') rows @ map csv_line (thread_annotation_pairs (t # ts))"
    by (simp add: thread_rows_pairs thread_annotation_pairs_Cons [of t ts])
  finally show ?case .
qed

lemma join_lines: "join [CHR 0x0A] (h # ls) = h @ concat (map (\<lambda>l. CHR 0x0A # l) ls)"
  by (induction ls arbitrary: h) simp_all

lemma length_thread_annotation_pairs:
  "length (thread_annotation_pairs ts) = sum_list (map (\<lambda>t. length (annotations_of_thread t)) ts)"
  by (induction ts) (simp_all add: thread_annotation_pairs_def)

lemma digit_cases: "d < 10 \<Longrightarrow> d = 0 \<or> d = 1 \<or> d = 2 \<or> d = 3 \<or> d = 4 \<or> d = 5 \<or> d = 6 \<or> d = 7
    \<or> d = 8 \<or> d = (9::nat)"
  by arith

lemma digit_value_digit: "d < 10 \<Longrightarrow> digit_value (digit d) = d"
  using digit_cases [of d] by (auto simp: digit_value_def digit_def)

lemma decimal_value_snoc: "decimal_value (s @ [c]) = 10 * decimal_value s + digit_value c"
  by (simp add: decimal_value_def)

lemma decimal_value_number_toString: "decimal_value (number_toString n) = n"
proof (induction n rule: number_toString.induct)
  case (1 n)
  show ?case
  proof (cases "n < 10")
    case True
    then show ?thesis by (simp add: decimal_value_def digit_value_digit)
  next
    case False
    with "1" have "decimal_value (number_toString (n div 10)) = n div 10" by simp
    with False show ?thesis
      by (subst number_toString.simps) (simp add: decimal_value_snoc digit_value_digit)
  qed
qed

lemma digit_in_digits: "d < 10 \<Longrightarrow> digit d \<in> set ''0123456789''"
  using digit_cases [of d] by (auto simp: digit_def)

lemma digit_zero: "d < 10 \<Longrightarrow> (digit d = CHR ''0'') = (d = 0)"
  using digit_cases [of d] by (auto simp: digit_def)

lemma number_toString_digits: "set (number_toString n) \<subseteq> set ''0123456789''"
proof (induction n rule: number_toString.induct)
  case (1 n)
  show ?case
  proof (cases "n < 10")
    case True
    then show ?thesis using digit_in_digits [of n] by simp
  next
    case False
    with "1" have "set (number_toString (n div 10)) \<subseteq> set ''0123456789''" by simp
    moreover have "digit (n mod 10) \<in> set ''0123456789''" by (rule digit_in_digits) simp
    ultimately show ?thesis using False by (subst number_toString.simps) simp
  qed
qed

lemma number_toString_nonempty: "number_toString n \<noteq> []"
  by (subst number_toString.simps) simp

lemma number_toString_leading_zero: "(hd (number_toString n) = CHR ''0'') = (n = 0)"
proof (induction n rule: number_toString.induct)
  case (1 n)
  show ?case
  proof (cases "n < 10")
    case True
    then show ?thesis by (simp add: digit_zero)
  next
    case False
    with "1" have "(hd (number_toString (n div 10)) = CHR ''0'') = (n div 10 = 0)" by simp
    moreover from False have "n div 10 \<noteq> 0" by simp
    ultimately show ?thesis using False number_toString_nonempty [of "n div 10"]
      by (subst number_toString.simps) simp
  qed
qed

text \<open>
  Claim C9 as stated has the notes wrapped in double quotes whenever they are present.
  The source tests \<open>annotation.notes ?\<close>, so a note that is present and is the empty
  string gives an empty field, not a pair of double quotes.
\<close>

theorem convertAnnotationsToCSV_empty_note_counterexample:
  "ann_notes (good_annotation\<lparr>ann_notes := Some []\<rparr>) = Some []
   \<and> convertAnnotationsToCSV
       [thread_t1\<lparr>annotations := AnnotationArray [good_annotation\<lparr>ann_notes := Some []\<rparr>]\<rparr>]
     = ''Thread ID,Thread Title,Annotation Index,Rating,Notes,Tags,Timestamp'' @ [CHR 0x0A]
       @ ''t1,Thread t1,0,good,,x,2020-01-01T00:00:00.000Z''"
  by (simp add: convertAnnotationsToCSV_def thread_rows_def annotation_seq_def csv_row_def
      headers_def thread_t1_def empty_thread_def good_annotation_def truthy_str_def
      string_or_empty_def element_string_def template_string_def digit_def)

text \<open>
  Claim C9, as amended. For every sequence of threads, \<open>convertAnnotationsToCSV\<close>
  yields the header line
  \<open>Thread ID,Thread Title,Annotation Index,Rating,Notes,Tags,Timestamp\<close> followed, each
  after a line feed, by exactly one row for every (thread, annotation) pair of the threads
  whose annotations, taken as a sequence (a legacy single annotation is a sequence of
  one), are not empty; so the number of rows is the total number of annotations. A row
  is the id, the title (or \<open>Thread\<close> and the id), the index in decimal, the rating,
  the notes, the tags and the timestamp, separated by commas. The notes field is the
  note wrapped in double quotes with its double quotes doubled when the note is present
  and not empty, and is empty when the note is missing or is the empty string; the tags
  field is the tags joined with \<open>;\<close>. The last conjunct is the export of three
  threads: a legacy one, one without annotations, and one with the id \<open>null\<close> and
  two annotations.
\<close>

theorem convertAnnotationsToCSV_rows:
  "convertAnnotationsToCSV threads =
     ''Thread ID,Thread Title,Annotation Index,Rating,Notes,Tags,Timestamp''
     @ concat (map (\<lambda>p. CHR 0x0A # csv_line p) (thread_annotation_pairs threads))
   \<and> length (thread_annotation_pairs threads) =
       sum_list (map (\<lambda>t. length (annotations_of_thread t)) threads)
   \<and> decimal_value (number_toString i) = i
   \<and> set (number_toString i) \<subseteq> set ''0123456789''
   \<and> (hd (number_toString i) = CHR ''0'') = (i = 0)
   \<and> convertAnnotationsToCSV [legacy_thread, thread_t1, null_id_thread] =
       ''Thread ID,Thread Title,Annotation Index,Rating,Notes,Tags,Timestamp'' @ [CHR 0x0A]
       @ ''t7,Refund request,0,bad,,,2020-01-02T00:00:00.000Z'' @ [CHR 0x0A]
       @ '',Thread null,0,good,'' @ [CHR 0x22] @ ''ok'' @ [CHR 0x22]
       @ '',x,2020-01-01T00:00:00.000Z'' @ [CHR 0x0A]
       @ '',Thread null,1,good,'' @ [CHR 0x22] @ ''say '' @ [CHR 0x22, CHR 0x22] @ ''ok''
       @ [CHR 0x22, CHR 0x22, CHR 0x22] @ '',x;y,2020-01-03T00:00:00.000Z''"
proof -
  have header: "join '','' headers
      = ''Thread ID,Thread Title,Annotation Index,Rating,Notes,Tags,Timestamp''"
    by (simp add: headers_def)
  have rows: "map (join '','') (fold thread_rows threads [])
      = map csv_line (thread_annotation_pairs threads)"
    using fold_thread_rows [of threads "[]"] by simp
  have "convertAnnotationsToCSV threads =
      join [CHR 0x0A] (join '','' headers # map (join '','') (fold thread_rows threads []))"
    by (simp add: convertAnnotationsToCSV_def)
  also have "\<dots> = ''Thread ID,Thread Title,Annotation Index,Rating,Notes,Tags,Timestamp''
     @ concat (map (\<lambda>l. CHR 0x0A # l) (map csv_line (thread_annotation_pairs threads)))"
    by (simp only: rows join_lines header)
  also have "\<dots> = ''Thread ID,Thread Title,Annotation Index,Rating,Notes,Tags,Timestamp''
     @ concat (map (\<lambda>p. CHR 0x0A # csv_line p) (thread_annotation_pairs threads))"
    by (simp only: map_map comp_def)
  finally have general: "convertAnnotationsToCSV threads =
     ''Thread ID,Thread Title,Annotation Index,Rating,Notes,Tags,Timestamp''
     @ concat (map (\<lambda>p. CHR 0x0A # csv_line p) (thread_annotation_pairs threads))" .
  have example: "convertAnnotationsToCSV [legacy_thread, thread_t1, null_id_thread] =
       ''Thread ID,Thread Title,Annotation Index,Rating,Notes,Tags,Timestamp'' @ [CHR 0x0A]
       @ ''t7,Refund request,0,bad,,,2020-01-02T00:00:00.000Z'' @ [CHR 0x0A]
       @ '',Thread null,0,good,'' @ [CHR 0x22] @ ''ok'' @ [CHR 0x22]
       @ '',x,2020-01-01T00:00:00.000Z'' @ [CHR 0x0A]
       @ '',Thread null,1,good,'' @ [CHR 0x22] @ ''say '' @ [CHR 0x22, CHR 0x22] @ ''ok''
       @ [CHR 0x22, CHR 0x22, CHR 0x22] @ '',x;y,2020-01-03T00:00:00.000Z''"
    by (simp add: convertAnnotationsToCSV_def thread_rows_def annotation_seq_def csv_row_def
        headers_def legacy_thread_def thread_t1_def null_id_thread_def empty_thread_def
        good_annotation_def bad_annotation_def quoted_annotation_def truthy_str_def
        string_or_empty_def element_string_def template_string_def digit_def)
  show ?thesis
    using general example length_thread_annotation_pairs [of threads]
      decimal_value_number_toString [of i] number_toString_digits [of i]
      number_toString_leading_zero [of i]
    by (intro conjI)
qed

section \<open>Evaluation of the operations on the example states\<close>

lemmas eval_defs = updateAnnotation_def deleteAnnotation_def updateThread_def getThread_def
  on_local_def on_remote_def getThreadById_closed getThreads_closed saveThreads_closed
  usable_def local_session_def local_store_def thread_t1_def empty_thread_def
  signed_out_def stored_thread_def as_updates_def spread_updates_def spread_field_def
  own_key_def annotation_seq_def valid_records_simps truthy_str_def truthy_id_def key_of_def
  good_annotation_def splice1_def Let_def

lemmas remote_eval_defs = remote_session_def signed_in_def reviewer_def
  remoteStorage_getThread_def remoteStorage_updateThread_def getDoc_def updateDoc_def
  put_doc_def doc_ref_def

section \<open>Appending an annotation\<close>

lemma spread_annotation_update:
  "spread_updates t (as_updates (t\<lparr>isAnnotated := Some b, annotations := AnnotationArray xs\<rparr>))
     = t\<lparr>isAnnotated := Some b, annotations := AnnotationArray xs\<rparr>"
  by (cases t)
     (simp add: spread_updates_def as_updates_def spread_field_def own_key_def
        split: option.splits id_value.splits)

lemma spread_annotation_update_stamped:
  "spread_updates t
     ((as_updates (t\<lparr>isAnnotated := Some b, annotations := AnnotationArray xs\<rparr>))\<lparr>
        upd_lastModifiedBy := Some e, upd_lastModifiedByUid := Some (Some i),
        upd_updatedAt := Some (Some ServerTimestamp)\<rparr>)
     = t\<lparr>isAnnotated := Some b, annotations := AnnotationArray xs, lastModifiedBy := e,
         lastModifiedByUid := Some i, updatedAt := Some ServerTimestamp\<rparr>"
  by (cases t)
     (simp add: spread_updates_def as_updates_def spread_field_def own_key_def
        split: option.splits id_value.splits)

lemma updateAnnotation_local_exact:
  assumes loc: "currentStorage s = IndexedDBStorage"
    and works: "engine_works s"
    and ok: "store_ok (localdb s)"
    and found: "stored_thread s k = Some t"
  shows "\<exists>s' i. updateAnnotation s k a now = (Inr True, s')
           \<and> i < length (records (localdb s)) \<and> records (localdb s) ! i = t
           \<and> records (localdb s') =
               (records (localdb s))[i := t\<lparr>
                  isAnnotated := Some True,
                  annotations := AnnotationArray
                    (annotations_of_thread t @ [a\<lparr>timestamp := Some now\<rparr>])\<rparr>]
           \<and> remotedb s' = remotedb s"
proof -
  let ?w = "t\<lparr>isAnnotated := Some True,
               annotations := AnnotationArray
                 (annotation_seq (annotations t) @ [a\<lparr>timestamp := Some now\<rparr>])\<rparr>"
  from getThread_found [OF works found] loc obtain s1 where
    g: "getThread s k = (Inr (Some t), s1)" and w1: "engine_works s1"
    and c1: "currentStorage s1 = IndexedDBStorage"
    and r1: "records (localdb s1) = records (localdb s)"
    and d1: "docs (remotedb s1) = docs (remotedb s)"
    and m1: "remotedb s1 = remotedb s" by auto
  have ok1: "store_ok (localdb s1)" using ok r1 by (simp add: store_ok_def)
  have f1: "stored_thread s1 k = Some t"
    using stored_thread_same [of s1 s k] c1 loc r1 d1 found by simp
  have id: "thread_id (spread_updates t (as_updates ?w)) = Str k"
    using stored_thread_local_id [OF loc found] by (simp add: spread_annotation_update)
  from updateThread_local_works [OF c1 w1 ok1 f1 id] obtain s' i where
    "updateThread s1 k (as_updates ?w) = (Inr True, s')"
    "i < length (records (localdb s1))" "records (localdb s1) ! i = t"
    "records (localdb s') = (records (localdb s1))[i := spread_updates t (as_updates ?w)]"
    "remotedb s' = remotedb s1" by blast
  with g r1 m1 show ?thesis
    by (intro exI [of _ s'] exI [of _ i])
       (simp add: updateAnnotation_def Let_def spread_annotation_update
          annotation_seq_of_thread)
qed

lemma updateAnnotation_remote_exact:
  assumes rem: "currentStorage s = RemoteStorage"
    and works: "engine_works s"
    and found: "stored_thread s k = Some t"
  shows "\<exists>s' usr k'. currentUser (remotedb s) = Some usr \<and> doc_ref (Str k) = Some k'
           \<and> updateAnnotation s k a now = (Inr True, s')
           \<and> docs (remotedb s') =
               (k', t\<lparr>isAnnotated := Some True,
                      annotations := AnnotationArray
                        (annotations_of_thread t @ [a\<lparr>timestamp := Some now\<rparr>]),
                      lastModifiedBy := email usr,
                      lastModifiedByUid := Some (uid usr),
                      updatedAt := Some ServerTimestamp\<rparr>)
               # filter (\<lambda>p. fst p \<noteq> k') (docs (remotedb s))
           \<and> localdb s' = localdb s"
proof -
  let ?w = "t\<lparr>isAnnotated := Some True,
               annotations := AnnotationArray
                 (annotation_seq (annotations t) @ [a\<lparr>timestamp := Some now\<rparr>])\<rparr>"
  from getThread_found [OF works found] rem obtain s1 where
    g: "getThread s k = (Inr (Some t), s1)" and w1: "engine_works s1"
    and c1: "currentStorage s1 = RemoteStorage"
    and r1: "records (localdb s1) = records (localdb s)"
    and d1: "docs (remotedb s1) = docs (remotedb s)"
    and u1: "currentUser (remotedb s1) = currentUser (remotedb s)"
    and l1: "localdb s1 = localdb s" by auto
  have f1: "stored_thread s1 k = Some t"
    using stored_thread_same [of s1 s k] c1 rem r1 d1 found by simp
  from updateThread_remote_works [OF c1 w1 f1, of "as_updates ?w"] obtain s' usr k' where
    "currentUser (remotedb s1) = Some usr" "doc_ref (Str k) = Some k'"
    "updateThread s1 k (as_updates ?w) = (Inr True, s')"
    "docs (remotedb s') =
       (k', spread_updates t ((as_updates ?w)\<lparr>
              upd_lastModifiedBy := Some (email usr),
              upd_lastModifiedByUid := Some (Some (uid usr)),
              upd_updatedAt := Some (Some ServerTimestamp)\<rparr>))
       # filter (\<lambda>p. fst p \<noteq> k') (docs (remotedb s1))"
    "localdb s' = localdb s1" by blast
  with g d1 u1 l1 show ?thesis
    by (intro exI [of _ s'] exI [of _ usr] exI [of _ k'])
       (simp add: updateAnnotation_def Let_def spread_annotation_update_stamped
          annotation_seq_of_thread)
qed

lemma updateAnnotation_missing:
  assumes "engine_works s" and "stored_thread s k = None"
  shows "fst (updateAnnotation s k a now) =
           (if currentStorage s = RemoteStorage \<and> doc_ref (Str k) = None
            then Inl InvalidArgument else Inl ThreadNotFound)"
proof -
  obtain r s1 where g: "getThread s k = (r, s1)" by (cases "getThread s k")
  with getThread_missing [OF assms, of ] show ?thesis
    by (auto simp: updateAnnotation_def split: if_splits)
qed


text \<open>
  Claim C7, as amended. Let the active engine work (the local database opens and its
  requests succeed; the remote engine has a session and its requests succeed) and let
  the local store be well formed (distinct non-empty ids, in key order). When the
  engine holds a thread under the id,
  \<open>updateAnnotation\<close> succeeds and writes that thread back with nothing changed but
  this: its annotations are the former annotations, normalised to a sequence (a legacy
  single annotation becomes a sequence of one), followed by exactly one new annotation,
  which is the caller's annotation data with its timestamp replaced by the current time,
  and \<open>isAnnotated\<close> is true. On the local engine the thread replaces the stored one
  at its place among the records, which are otherwise as before; on the remote engine the document is replaced, with
  \<open>lastModifiedBy\<close>, \<open>lastModifiedByUid\<close> and \<open>updatedAt\<close> of the thread stamped
  by the write. No identity is added to the annotation: its \<open>createdBy\<close> and
  \<open>createdByUid\<close> are those of the caller's data. When the engine holds no thread
  under the id, the operation fails with "not found", except that on the remote engine
  an id that is no document reference fails with the error of \<open>doc\<close>.
\<close>

theorem updateAnnotation_appends:
  assumes "engine_works s" and "store_ok (localdb s)"
  shows "(\<forall>t. currentStorage s = IndexedDBStorage \<and> stored_thread s k = Some t \<longrightarrow>
            (\<exists>s' i. updateAnnotation s k a now = (Inr True, s')
               \<and> i < length (records (localdb s)) \<and> records (localdb s) ! i = t
               \<and> records (localdb s') =
                   (records (localdb s))[i := t\<lparr>
                      isAnnotated := Some True,
                      annotations := AnnotationArray
                        (annotations_of_thread t @ [a\<lparr>timestamp := Some now\<rparr>])\<rparr>]
               \<and> remotedb s' = remotedb s))
       \<and> (\<forall>t. currentStorage s = RemoteStorage \<and> stored_thread s k = Some t \<longrightarrow>
            (\<exists>s' usr k'. currentUser (remotedb s) = Some usr \<and> doc_ref (Str k) = Some k'
               \<and> updateAnnotation s k a now = (Inr True, s')
               \<and> docs (remotedb s') =
                   (k', t\<lparr>isAnnotated := Some True,
                          annotations := AnnotationArray
                            (annotations_of_thread t @ [a\<lparr>timestamp := Some now\<rparr>]),
                          lastModifiedBy := email usr,
                          lastModifiedByUid := Some (uid usr),
                          updatedAt := Some ServerTimestamp\<rparr>)
                   # filter (\<lambda>p. fst p \<noteq> k') (docs (remotedb s))
               \<and> localdb s' = localdb s))
       \<and> (stored_thread s k = None \<longrightarrow>
            fst (updateAnnotation s k a now) =
              (if currentStorage s = RemoteStorage \<and> doc_ref (Str k) = None
               then Inl InvalidArgument else Inl ThreadNotFound))"
  using updateAnnotation_local_exact [OF _ assms, of k _ a now]
    updateAnnotation_remote_exact [OF _ assms(1), of k _ a now]
    updateAnnotation_missing [OF assms(1), of k a now]
  by blast


theorem updateAnnotation_appends_witness:
  "engine_works legacy_local_session \<and> store_ok (localdb legacy_local_session)
   \<and> currentStorage legacy_local_session = IndexedDBStorage
   \<and> stored_thread legacy_local_session ''t7'' = Some legacy_thread
   \<and> annotations legacy_thread = SingleAnnotation bad_annotation
   \<and> (\<exists>s'. updateAnnotation legacy_local_session ''t7'' quoted_annotation
               ''2024-05-01T10:00:00.000Z'' = (Inr True, s')
          \<and> records (localdb s') =
              [thread_t1,
               legacy_thread\<lparr>isAnnotated := Some True,
                 annotations := AnnotationArray
                   [bad_annotation,
                    quoted_annotation\<lparr>timestamp := Some ''2024-05-01T10:00:00.000Z''\<rparr>]\<rparr>])
   \<and> stored_thread legacy_local_session ''t2'' = None
   \<and> fst (updateAnnotation legacy_local_session ''t2'' quoted_annotation
            ''2024-05-01T10:00:00.000Z'') = Inl ThreadNotFound
   \<and> engine_works legacy_remote_session
   \<and> currentStorage legacy_remote_session = RemoteStorage
   \<and> stored_thread legacy_remote_session ''t7'' = Some legacy_thread
   \<and> (\<exists>s'. updateAnnotation legacy_remote_session ''t7'' quoted_annotation
               ''2024-05-01T10:00:00.000Z'' = (Inr True, s')
          \<and> docs (remotedb s') =
              [(''t7'',
                legacy_thread\<lparr>isAnnotated := Some True,
                  annotations := AnnotationArray
                    [bad_annotation,
                     quoted_annotation\<lparr>timestamp := Some ''2024-05-01T10:00:00.000Z''\<rparr>],
                  lastModifiedBy := Some ''reviewer@example.org'',
                  lastModifiedByUid := Some ''u1'',
                  updatedAt := Some ServerTimestamp\<rparr>),
               (''t1'', thread_t1)])
   \<and> stored_thread legacy_remote_session ''t2'' = None
   \<and> fst (updateAnnotation legacy_remote_session ''t2'' quoted_annotation
            ''2024-05-01T10:00:00.000Z'') = Inl ThreadNotFound
   \<and> stored_thread legacy_remote_session ''a/b'' = None
   \<and> fst (updateAnnotation legacy_remote_session ''a/b'' quoted_annotation
            ''2024-05-01T10:00:00.000Z'') = Inl InvalidArgument"
proof -
  let ?now = "''2024-05-01T10:00:00.000Z''"
  have lw: "engine_works legacy_local_session"
    and lo: "store_ok (localdb legacy_local_session)"
    and lc: "currentStorage legacy_local_session = IndexedDBStorage"
    and lr: "records (localdb legacy_local_session) = [thread_t1, legacy_thread]"
    by (simp_all add: engine_works_def store_ok_def legacy_local_session_def local_session_def
        local_store_def usable_def thread_t1_def legacy_thread_def empty_thread_def
        truthy_id_def key_of_def)
  have l7: "stored_thread legacy_local_session ''t7'' = Some legacy_thread"
    and l2: "stored_thread legacy_local_session ''t2'' = None"
    and li: "thread_t1 \<noteq> legacy_thread"
    by (simp_all add: stored_thread_def legacy_local_session_def local_session_def
        local_store_def thread_t1_def legacy_thread_def empty_thread_def)
  have rw: "engine_works legacy_remote_session"
    and ro: "store_ok (localdb legacy_remote_session)"
    and rc: "currentStorage legacy_remote_session = RemoteStorage"
    and ru: "currentUser (remotedb legacy_remote_session) = Some reviewer"
    and rd: "docs (remotedb legacy_remote_session) = [(''t7'', legacy_thread), (''t1'', thread_t1)]"
    by (simp_all add: engine_works_def store_ok_def legacy_remote_session_def signed_in_def
        local_store_def thread_t1_def legacy_thread_def empty_thread_def truthy_id_def
        key_of_def)
  have refs: "doc_ref (Str ''t7'') = Some ''t7''" "doc_ref (Str ''t2'') = Some ''t2''"
    "doc_ref (Str ''a/b'') = None"
    by (simp_all add: doc_ref_def)
  have r7: "stored_thread legacy_remote_session ''t7'' = Some legacy_thread"
    and r2: "stored_thread legacy_remote_session ''t2'' = None"
    and rs: "stored_thread legacy_remote_session ''a/b'' = None"
    by (simp_all add: stored_thread_def refs rc rd)
  have seq: "annotations legacy_thread = SingleAnnotation bad_annotation"
    "annotations_of_thread legacy_thread = [bad_annotation]"
    by (simp_all add: legacy_thread_def annotations_of_thread_def)
  have who: "email reviewer = Some ''reviewer@example.org''" "uid reviewer = ''u1''"
    by (simp_all add: reviewer_def)
  have at: "i = 1" if "i < 2" and "[thread_t1, legacy_thread] ! i = legacy_thread" for i
  proof -
    from that(1) have "i = 0 \<or> i = 1" by arith
    with that(2) li show ?thesis by auto
  qed
  from updateAnnotation_appends [OF lw lo, of "''t7''" quoted_annotation ?now] lc l7
  obtain s1 i where s1: "updateAnnotation legacy_local_session ''t7'' quoted_annotation ?now
        = (Inr True, s1)"
    "i < length (records (localdb legacy_local_session))"
    "records (localdb legacy_local_session) ! i = legacy_thread"
    "records (localdb s1) =
       (records (localdb legacy_local_session))[i := legacy_thread\<lparr>
          isAnnotated := Some True,
          annotations := AnnotationArray
            (annotations_of_thread legacy_thread @ [quoted_annotation\<lparr>timestamp := Some ?now\<rparr>])\<rparr>]"
    by blast
  from s1(2,3) have "i = 1" by (intro at) (simp_all add: lr)
  with s1(1,4) have local: "\<exists>s'. updateAnnotation legacy_local_session ''t7'' quoted_annotation
               ?now = (Inr True, s')
          \<and> records (localdb s') =
              [thread_t1,
               legacy_thread\<lparr>isAnnotated := Some True,
                 annotations := AnnotationArray
                   [bad_annotation, quoted_annotation\<lparr>timestamp := Some ?now\<rparr>]\<rparr>]"
    by (simp add: lr seq)
  from updateAnnotation_appends [OF rw ro, of "''t7''" quoted_annotation ?now] rc r7
  obtain s2 usr k' where s2: "currentUser (remotedb legacy_remote_session) = Some usr"
    "doc_ref (Str ''t7'') = Some k'"
    "updateAnnotation legacy_remote_session ''t7'' quoted_annotation ?now = (Inr True, s2)"
    "docs (remotedb s2) =
       (k', legacy_thread\<lparr>isAnnotated := Some True,
              annotations := AnnotationArray
                (annotations_of_thread legacy_thread @ [quoted_annotation\<lparr>timestamp := Some ?now\<rparr>]),
              lastModifiedBy := email usr,
              lastModifiedByUid := Some (uid usr),
              updatedAt := Some ServerTimestamp\<rparr>)
       # filter (\<lambda>p. fst p \<noteq> k') (docs (remotedb legacy_remote_session))"
    by blast
  from s2(1,2) ru refs have "usr = reviewer" "k' = ''t7''" by simp_all
  with s2(3,4) have remote: "\<exists>s'. updateAnnotation legacy_remote_session ''t7'' quoted_annotation
               ?now = (Inr True, s')
          \<and> docs (remotedb s') =
              [(''t7'',
                legacy_thread\<lparr>isAnnotated := Some True,
                  annotations := AnnotationArray
                    [bad_annotation, quoted_annotation\<lparr>timestamp := Some ?now\<rparr>],
                  lastModifiedBy := Some ''reviewer@example.org'',
                  lastModifiedByUid := Some ''u1'',
                  updatedAt := Some ServerTimestamp\<rparr>),
               (''t1'', thread_t1)]"
    by (simp add: rd seq who)
  show ?thesis
    using lw lo lc l7 l2 rw rc r7 r2 rs seq(1) refs local remote
      updateAnnotation_appends [OF lw lo, of "''t2''" quoted_annotation ?now]
      updateAnnotation_appends [OF rw ro, of "''t2''" quoted_annotation ?now]
      updateAnnotation_appends [OF rw ro, of "''a/b''" quoted_annotation ?now]
    by simp
qed

text \<open>
  Claim C7 as stated also has the new annotation stamped with the caller's identity.
  With a signed-in user on the remote engine the appended annotation still has neither
  \<open>createdBy\<close> nor \<open>createdByUid\<close>.
\<close>

theorem updateAnnotation_identity_counterexample:
  "currentUser (remotedb remote_session) = Some reviewer
   \<and> fst (updateAnnotation remote_session ''t1'' good_annotation ''2024-05-01T10:00:00.000Z'')
       = Inr True
   \<and> map_option annotations
       (stored_thread
          (snd (updateAnnotation remote_session ''t1'' good_annotation ''2024-05-01T10:00:00.000Z''))
          ''t1'')
       = Some (AnnotationArray [good_annotation\<lparr>timestamp := Some ''2024-05-01T10:00:00.000Z''\<rparr>])
   \<and> createdBy (good_annotation\<lparr>timestamp := Some ''2024-05-01T10:00:00.000Z''\<rparr>) = None
   \<and> createdByUid (good_annotation\<lparr>timestamp := Some ''2024-05-01T10:00:00.000Z''\<rparr>) = None"
  by (simp add: eval_defs remote_eval_defs)

section \<open>The derived flag\<close>

text \<open>
  Claim C1. Start from any state whose local object store is well formed and apply any
  sequence of \<open>updateAnnotation\<close> (the annotation-append operation) and
  \<open>deleteAnnotation\<close> calls through the facade, on either engine. After each call
  that succeeds, the thread held by the active engine under the id of the call has an
  annotations array and \<open>isAnnotated\<close> is true exactly when that array is not empty.
\<close>

theorem derived_flag_after_each_operation:
  assumes "store_ok (localdb s)"
  shows "\<forall>w \<in> set (written_back s ops). \<exists>t. w = Some t \<and> derived_flag_ok t"
  using assms
proof (induction ops arbitrary: s)
  case Nil
  show ?case by simp
next
  case (Cons x xs)
  obtain r s' where step: "apply_annotation_op s x = (r, s')"
    by (cases "apply_annotation_op s x")
  have ok': "store_ok (localdb s')"
    using store_ok_annotation_op [OF Cons.prems, of x] step by simp
  show ?case
  proof (cases r)
    case (Inl e)
    with step Cons.IH [OF ok'] show ?thesis by simp
  next
    case (Inr b)
    with step annotation_op_derived_flag [OF Cons.prems, of x b s'] Cons.IH [OF ok']
    show ?thesis by simp
  qed
qed

theorem derived_flag_after_each_operation_witness:
  "store_ok (localdb local_session)
   \<and> map (map_option (\<lambda>t. (isAnnotated t, length (annotation_seq (annotations t)))))
       (written_back local_session
          [Append ''t1'' good_annotation ''2024-05-01T10:00:00.000Z'', Delete ''t1'' 0])
     = [Some (Some True, 1), Some (Some False, 0)]
   \<and> list_all (\<lambda>w. \<exists>t. w = Some t \<and> derived_flag_ok t)
       (written_back local_session
          [Append ''t1'' good_annotation ''2024-05-01T10:00:00.000Z'', Delete ''t1'' 0])"
proof -
  have h: "store_ok (localdb local_session)"
    by (simp add: store_ok_def eval_defs)
  have e: "map (map_option (\<lambda>t. (isAnnotated t, length (annotation_seq (annotations t)))))
       (written_back local_session
          [Append ''t1'' good_annotation ''2024-05-01T10:00:00.000Z'', Delete ''t1'' 0])
     = [Some (Some True, 1), Some (Some False, 0)]"
    by (simp add: eval_defs)
  show ?thesis
    using h e derived_flag_after_each_operation [OF h,
        of "[Append ''t1'' good_annotation ''2024-05-01T10:00:00.000Z'', Delete ''t1'' 0]"]
    by (simp add: list_all_iff)
qed

section \<open>Deleting an annotation\<close>

lemma deleteAnnotation_beyond_length:
  assumes "engine_works s" and "store_ok (localdb s)" and "stored_thread s k = Some t"
    and "int (length (annotation_seq (annotations t))) \<le> i"
  shows "\<exists>s' t'. deleteAnnotation s k i = (Inr True, s') \<and> stored_thread s' k = Some t'
           \<and> annotations t' = AnnotationArray (annotation_seq (annotations t))"
  using deleteAnnotation_works [OF assms(1-3), of i] assms(4) by auto

text \<open>
  Claim C2 says that \<open>deleteAnnotation\<close> with an index at or beyond the length, or
  with a negative index, leaves the annotations as they are. The guard of the source,
  \<open>updatedAnnotations.length > annotationIndex\<close>, holds for every negative index, and
  \<open>splice\<close> counts a negative start from the end: on a thread with two annotations
  the index \<open>-1\<close> removes the last one.
\<close>

theorem deleteAnnotation_negative_index_removes_last:
  "map_option annotations (stored_thread annotated_session ''t1'')
     = Some (AnnotationArray [good_annotation, bad_annotation])
   \<and> fst (deleteAnnotation annotated_session ''t1'' (- 1)) = Inr True
   \<and> map_option annotations
       (stored_thread (snd (deleteAnnotation annotated_session ''t1'' (- 1))) ''t1'')
     = Some (AnnotationArray [good_annotation])"
  by (simp add: eval_defs annotated_session_def)

section \<open>Updating a missing thread\<close>

lemma updateThread_local_missing:
  assumes "currentStorage s = IndexedDBStorage" and "stored_thread s k = None"
    and "\<not> (usable (localdb s) \<and> read_error (localdb s))"
  shows "fst (updateThread s k u) = Inl ThreadNotFound"
  using assms
  by (auto simp: updateThread_def on_local_def getThreadById_closed stored_thread_def)

text \<open>
  Claim C10. On the local engine, whenever \<open>updateThread\<close> fails with "not found",
  no read-write transaction has been started and the records of the object store, hence
  the thread collection, are those from before the call.
\<close>

theorem updateThread_not_found_writes_nothing:
  assumes "currentStorage s = IndexedDBStorage"
    and "updateThread s k u = (Inl ThreadNotFound, s')"
  shows "records (localdb s') = records (localdb s)
       \<and> idb_writes (localdb s') = idb_writes (localdb s)
       \<and> collection s' = collection s"
  using assms
  by (auto simp: updateThread_def on_local_def getThreadById_closed getThreads_closed
      saveThreads_closed collection_def Let_def split: if_splits option.splits)

theorem updateThread_not_found_writes_nothing_witness:
  "currentStorage local_session = IndexedDBStorage
   \<and> updateThread local_session ''t2'' (as_updates thread_t1)
       = (Inl ThreadNotFound,
          local_session\<lparr>localdb := local_store\<lparr>db_handle := True, idb_reads := 1\<rparr>\<rparr>)
   \<and> records (localdb (local_session\<lparr>localdb := local_store\<lparr>db_handle := True, idb_reads := 1\<rparr>\<rparr>))
       = [thread_t1]
   \<and> idb_writes (localdb (local_session\<lparr>localdb := local_store\<lparr>db_handle := True, idb_reads := 1\<rparr>\<rparr>))
       = 0
   \<and> collection (local_session\<lparr>localdb := local_store\<lparr>db_handle := True, idb_reads := 1\<rparr>\<rparr>)
       = collection local_session"
proof -
  have l: "currentStorage local_session = IndexedDBStorage" by (simp add: local_session_def)
  have u: "updateThread local_session ''t2'' (as_updates thread_t1)
       = (Inl ThreadNotFound,
          local_session\<lparr>localdb := local_store\<lparr>db_handle := True, idb_reads := 1\<rparr>\<rparr>)"
    by (simp add: eval_defs)
  show ?thesis
    using l u updateThread_not_found_writes_nothing [OF l u]
    by (simp add: local_session_def local_store_def)
qed

section \<open>Reading when the engine fails\<close>




section \<open>Deleting a missing thread\<close>

text \<open>
  Claim C4 as stated has \<open>deleteThread\<close> return false for a missing id on both
  engines. On the remote engine, with a session and a working connection, it fails with
  "Thread not found".
\<close>

theorem deleteThread_remote_missing_counterexample:
  "currentStorage remote_session = RemoteStorage
   \<and> stored_thread remote_session ''t2'' = None
   \<and> fst (deleteThread remote_session ''t2'') = Inl ThreadNotFound"
  by (simp add: remote_session_def signed_in_def reviewer_def stored_thread_def deleteThread_def
      on_remote_def remoteStorage_deleteThread_def getDoc_def doc_ref_def)

lemma filter_missing:
  "find (\<lambda>t. thread_id t = Str k) xs = None \<Longrightarrow> filter (\<lambda>t. thread_id t \<noteq> Str k) xs = xs"
  by (induction xs) (auto split: if_splits)

lemma deleteThread_local_missing:
  assumes "currentStorage s = IndexedDBStorage" and "stored_thread s k = None"
    and "\<not> read_error (localdb s)"
  shows "\<exists>s1. deleteThread s k = (Inr False, s1) \<and> collection s1 = collection s
           \<and> idb_writes (localdb s1) = idb_writes (localdb s)
           \<and> currentStorage s1 = IndexedDBStorage \<and> stored_thread s1 k = None
           \<and> \<not> read_error (localdb s1)"
  using assms
  by (simp add: deleteThread_def on_local_def getThreads_closed stored_thread_def
      collection_def filter_missing)

lemma deleteThread_remote_bad_id:
  assumes "currentStorage s = RemoteStorage" and "currentUser (remotedb s) \<noteq> None"
    and "doc_ref (Str k) = None"
  shows "deleteThread s k = (Inl InvalidArgument, s)"
proof -
  from assms(2) obtain usr where "currentUser (remotedb s) = Some usr" by auto
  with assms show ?thesis
    by (simp add: deleteThread_def on_remote_def remoteStorage_deleteThread_def)
qed

lemma deleteThread_remote_absent:
  assumes "currentStorage s = RemoteStorage" and "currentUser (remotedb s) \<noteq> None"
    and "\<not> net_error (remotedb s)" and "doc_ref (Str k) = Some k'"
    and "map_of (docs (remotedb s)) k' = None"
  shows "\<exists>s1. deleteThread s k = (Inl ThreadNotFound, s1)
           \<and> docs (remotedb s1) = docs (remotedb s)
           \<and> currentStorage s1 = RemoteStorage
           \<and> currentUser (remotedb s1) \<noteq> None \<and> \<not> net_error (remotedb s1)"
proof -
  from assms(2) obtain usr where "currentUser (remotedb s) = Some usr" by auto
  with assms show ?thesis
    by (simp add: deleteThread_def on_remote_def remoteStorage_deleteThread_def getDoc_def)
qed

text \<open>
  Claim C4, as amended. For an id the active engine does not hold: on the local engine,
  when the read request of \<open>getThreads\<close> does not fail, \<open>deleteThread\<close> returns
  false, starts no write and leaves the collection as it is, and a second call does the
  same; on the remote engine, with a session and the requests succeeding,
  \<open>deleteThread\<close> fails and leaves the documents as they are, and a second call does
  the same: the error is "Thread not found" when the id is a document reference, and
  the error of \<open>doc\<close>, with no request issued, when it is not (the empty id,
  \<open>a/b\<close>).
\<close>

theorem deleteThread_missing:
  "(currentStorage s = IndexedDBStorage \<and> stored_thread s k = None
      \<and> \<not> read_error (localdb s) \<longrightarrow>
      (\<exists>s1 s2. deleteThread s k = (Inr False, s1) \<and> collection s1 = collection s
          \<and> idb_writes (localdb s1) = idb_writes (localdb s)
          \<and> deleteThread s1 k = (Inr False, s2) \<and> collection s2 = collection s
          \<and> idb_writes (localdb s2) = idb_writes (localdb s)))
   \<and> (currentStorage s = RemoteStorage \<and> stored_thread s k = None
      \<and> currentUser (remotedb s) \<noteq> None \<and> \<not> net_error (remotedb s) \<longrightarrow>
      (\<exists>s1 s2.
          deleteThread s k =
            (if doc_ref (Str k) = None then Inl InvalidArgument else Inl ThreadNotFound, s1)
          \<and> docs (remotedb s1) = docs (remotedb s)
          \<and> (doc_ref (Str k) = None \<longrightarrow> s1 = s)
          \<and> deleteThread s1 k =
            (if doc_ref (Str k) = None then Inl InvalidArgument else Inl ThreadNotFound, s2)
          \<and> docs (remotedb s2) = docs (remotedb s)))"
proof (intro conjI impI)
  assume a: "currentStorage s = IndexedDBStorage \<and> stored_thread s k = None
      \<and> \<not> read_error (localdb s)"
  then obtain s1 where s1: "deleteThread s k = (Inr False, s1)" "collection s1 = collection s"
    "idb_writes (localdb s1) = idb_writes (localdb s)"
    "currentStorage s1 = IndexedDBStorage" "stored_thread s1 k = None" "\<not> read_error (localdb s1)"
    using deleteThread_local_missing [of s k] by blast
  from deleteThread_local_missing [OF s1(4,5,6)] obtain s2 where
    "deleteThread s1 k = (Inr False, s2)" "collection s2 = collection s1"
    "idb_writes (localdb s2) = idb_writes (localdb s1)" by blast
  with s1 show "\<exists>s1 s2. deleteThread s k = (Inr False, s1) \<and> collection s1 = collection s
          \<and> idb_writes (localdb s1) = idb_writes (localdb s)
          \<and> deleteThread s1 k = (Inr False, s2) \<and> collection s2 = collection s
          \<and> idb_writes (localdb s2) = idb_writes (localdb s)"
    by auto
next
  let ?e = "if doc_ref (Str k) = None then Inl InvalidArgument else Inl ThreadNotFound"
  assume a: "currentStorage s = RemoteStorage \<and> stored_thread s k = None
      \<and> currentUser (remotedb s) \<noteq> None \<and> \<not> net_error (remotedb s)"
  show "\<exists>s1 s2. deleteThread s k = (?e, s1)
          \<and> docs (remotedb s1) = docs (remotedb s)
          \<and> (doc_ref (Str k) = None \<longrightarrow> s1 = s)
          \<and> deleteThread s1 k = (?e, s2)
          \<and> docs (remotedb s2) = docs (remotedb s)"
  proof (cases "doc_ref (Str k)")
    case None
    from a have "deleteThread s k = (Inl InvalidArgument, s)"
      by (intro deleteThread_remote_bad_id None) simp_all
    with None show ?thesis by simp
  next
    case (Some k')
    from a have "stored_thread s k = None" and "currentStorage s = RemoteStorage" by simp_all
    with Some have absent: "map_of (docs (remotedb s)) k' = None"
      by (simp add: stored_thread_def)
    from a have r: "currentStorage s = RemoteStorage" and u: "currentUser (remotedb s) \<noteq> None"
      and n: "\<not> net_error (remotedb s)" by simp_all
    from deleteThread_remote_absent [OF r u n Some absent] obtain s1 where
      s1: "deleteThread s k = (Inl ThreadNotFound, s1)" "docs (remotedb s1) = docs (remotedb s)"
      "currentStorage s1 = RemoteStorage" "currentUser (remotedb s1) \<noteq> None"
      "\<not> net_error (remotedb s1)" by blast
    from absent s1(2) have absent1: "map_of (docs (remotedb s1)) k' = None" by simp
    from deleteThread_remote_absent [OF s1(3,4,5) Some absent1] obtain s2 where
      s2: "deleteThread s1 k = (Inl ThreadNotFound, s2)" "docs (remotedb s2) = docs (remotedb s1)"
      by blast
    have "deleteThread s k = (?e, s1)" using s1(1) Some by simp
    moreover have "deleteThread s1 k = (?e, s2)" using s2(1) Some by simp
    moreover have "docs (remotedb s2) = docs (remotedb s)" using s1(2) s2(2) by simp
    moreover have "doc_ref (Str k) = None \<longrightarrow> s1 = s" using Some by simp
    ultimately show ?thesis using s1(2) by (intro exI [of _ s1] exI [of _ s2] conjI)
  qed
qed

theorem deleteThread_missing_witness:
  "currentStorage local_session = IndexedDBStorage \<and> stored_thread local_session ''t2'' = None
   \<and> \<not> read_error (localdb local_session)
   \<and> (\<exists>s1 s2. deleteThread local_session ''t2'' = (Inr False, s1)
          \<and> collection s1 = [thread_t1] \<and> idb_writes (localdb s1) = 0
          \<and> deleteThread s1 ''t2'' = (Inr False, s2) \<and> collection s2 = [thread_t1]
          \<and> idb_writes (localdb s2) = 0)
   \<and> currentStorage remote_session = RemoteStorage \<and> stored_thread remote_session ''t2'' = None
   \<and> currentUser (remotedb remote_session) \<noteq> None \<and> \<not> net_error (remotedb remote_session)
   \<and> (\<exists>s1 s2. deleteThread remote_session ''t2'' = (Inl ThreadNotFound, s1)
          \<and> docs (remotedb s1) = [(''t1'', thread_t1)]
          \<and> deleteThread s1 ''t2'' = (Inl ThreadNotFound, s2)
          \<and> docs (remotedb s2) = [(''t1'', thread_t1)])
   \<and> stored_thread remote_session ''a/b'' = None
   \<and> deleteThread remote_session ''a/b'' = (Inl InvalidArgument, remote_session)
   \<and> stored_thread remote_session [] = None
   \<and> deleteThread remote_session [] = (Inl InvalidArgument, remote_session)"
proof -
  have a: "currentStorage local_session = IndexedDBStorage"
    "stored_thread local_session ''t2'' = None" "\<not> read_error (localdb local_session)"
    "collection local_session = [thread_t1]" "idb_writes (localdb local_session) = 0"
    by (simp_all add: eval_defs collection_def)
  have refs: "doc_ref (Str ''t2'') = Some ''t2''" "doc_ref (Str ''a/b'') = None"
    "doc_ref (Str []) = None"
    by (simp_all add: doc_ref_def)
  have b: "currentStorage remote_session = RemoteStorage"
    "stored_thread remote_session ''t2'' = None"
    "stored_thread remote_session ''a/b'' = None"
    "stored_thread remote_session [] = None"
    "currentUser (remotedb remote_session) \<noteq> None" "\<not> net_error (remotedb remote_session)"
    "docs (remotedb remote_session) = [(''t1'', thread_t1)]"
    by (simp_all add: remote_session_def signed_in_def stored_thread_def refs)
  show ?thesis
    using a b refs deleteThread_missing [of local_session "''t2''"]
      deleteThread_missing [of remote_session "''t2''"]
      deleteThread_missing [of remote_session "''a/b''"]
      deleteThread_missing [of remote_session "[]"]
    by auto
qed

section \<open>Replacing the local collection\<close>

text \<open>
  Claim C6 as stated has every structurally valid record of the input persisted. Two
  valid records with the same id cannot both be added to a store keyed by \<open>id\<close>: the
  second \<open>store.add\<close> fails, the transaction aborts, the call is rejected and the
  store keeps its former contents.
\<close>

theorem saveThreads_duplicate_id_counterexample:
  "valid_records [JsObject thread_t1, JsNull, JsObject (thread_t1\<lparr>title := Some ''copy''\<rparr>)]
     = [thread_t1, thread_t1\<lparr>title := Some ''copy''\<rparr>]
   \<and> fst (IndexedDBStorage_saveThreads (local_store\<lparr>records := []\<rparr>)
       [JsObject thread_t1, JsNull, JsObject (thread_t1\<lparr>title := Some ''copy''\<rparr>)])
     = Inl IdbError
   \<and> records (snd (IndexedDBStorage_saveThreads (local_store\<lparr>records := []\<rparr>)
       [JsObject thread_t1, JsNull, JsObject (thread_t1\<lparr>title := Some ''copy''\<rparr>)]))
     = []"
  by (simp add: saveThreads_closed valid_records_simps truthy_id_def key_of_def thread_t1_def
      empty_thread_def local_store_def usable_def)

text \<open>
  Claim C6, as amended. When the database can be opened, the transaction does not fail
  and the structurally valid records of the input array (the objects with a non-empty
  id) have pairwise distinct ids, \<open>saveThreads\<close> succeeds and exactly these records
  become the contents of the store, in key order; the malformed records (null, not an
  object, id missing or empty) are dropped.
\<close>

theorem saveThreads_keeps_valid_records:
  assumes "usable l" and "\<not> write_error l" and "distinct (map key_of (valid_records vs))"
  shows "\<exists>l'. IndexedDBStorage_saveThreads l vs = (Inr True, l')
           \<and> records l' = sort_key key_of (valid_records vs)
           \<and> mset (records l') = mset (valid_records vs)
           \<and> length (records l') = length (valid_records vs)"
  using assms by (simp add: saveThreads_closed)

theorem saveThreads_keeps_valid_records_witness:
  "usable local_store \<and> \<not> write_error local_store
   \<and> valid_records [JsObject (thread_t1\<lparr>thread_id := Str ''t2''\<rparr>), JsNull, JsPrimitive,
        JsObject empty_thread, JsObject (thread_t1\<lparr>title := Some ''first''\<rparr>),
        JsObject (empty_thread\<lparr>thread_id := Str []\<rparr>)]
       = [thread_t1\<lparr>thread_id := Str ''t2''\<rparr>, thread_t1\<lparr>title := Some ''first''\<rparr>]
   \<and> distinct (map key_of [thread_t1\<lparr>thread_id := Str ''t2''\<rparr>,
                            thread_t1\<lparr>title := Some ''first''\<rparr>])
   \<and> (\<exists>l'. IndexedDBStorage_saveThreads local_store
          [JsObject (thread_t1\<lparr>thread_id := Str ''t2''\<rparr>), JsNull, JsPrimitive,
           JsObject empty_thread, JsObject (thread_t1\<lparr>title := Some ''first''\<rparr>),
           JsObject (empty_thread\<lparr>thread_id := Str []\<rparr>)] = (Inr True, l')
        \<and> mset (records l')
            = mset [thread_t1\<lparr>thread_id := Str ''t2''\<rparr>, thread_t1\<lparr>title := Some ''first''\<rparr>]
        \<and> length (records l') = 2)"
proof -
  let ?vs = "[JsObject (thread_t1\<lparr>thread_id := Str ''t2''\<rparr>), JsNull, JsPrimitive,
        JsObject empty_thread, JsObject (thread_t1\<lparr>title := Some ''first''\<rparr>),
        JsObject (empty_thread\<lparr>thread_id := Str []\<rparr>)]"
  have u: "usable local_store" and w: "\<not> write_error local_store"
    by (simp_all add: local_store_def usable_def)
  have v: "valid_records ?vs
       = [thread_t1\<lparr>thread_id := Str ''t2''\<rparr>, thread_t1\<lparr>title := Some ''first''\<rparr>]"
    by (simp add: valid_records_simps truthy_id_def thread_t1_def empty_thread_def)
  have d: "distinct (map key_of (valid_records ?vs))"
    by (simp add: v) (simp add: key_of_def thread_t1_def empty_thread_def)
  show ?thesis
    using u w v d saveThreads_keeps_valid_records [OF u w d]
    by auto
qed

section \<open>Synchronising the local threads to the remote engine\<close>

lemma map_of_put_doc_other: "k' \<noteq> k \<Longrightarrow> map_of (put_doc k v ds) k' = map_of ds k'"
  by (induction ds) (auto simp: put_doc_def)

lemma split_slash_plain: "CHR ''/'' \<notin> set k \<Longrightarrow> split_slash k = [k]"
  by (induction k) auto

lemma double_slash_plain: "CHR ''/'' \<notin> set k \<Longrightarrow> \<not> double_slash k"
  by (induction k rule: double_slash.induct) auto

lemma doc_ref_plain: "k \<noteq> [] \<Longrightarrow> CHR ''/'' \<notin> set k \<Longrightarrow> doc_ref (Str k) = Some k"
  by (simp add: doc_ref_def split_slash_plain double_slash_plain)

lemma doc_ref_key:
  "truthy_id (thread_id t) \<Longrightarrow> CHR ''/'' \<notin> set (key_of t) \<Longrightarrow>
   doc_ref (thread_id t) = Some (key_of t)"
  by (cases "thread_id t") (simp_all add: truthy_id_def key_of_def doc_ref_plain)

lemma import_meta_fields:
  "import_meta u t = t\<lparr>
     importedBy := email u,
     importedByUid := Some (uid u),
     updatedAt := Some ServerTimestamp,
     createdAt := (if createdAt t = None \<or> createdAt t = Some (Iso []) then Some ServerTimestamp
                   else createdAt t)\<rparr>"
  by (auto simp: import_meta_def truthy_ts_def split: option.splits tstamp.splits)

lemma import_loop_works:
  assumes "\<not> net_error r" and "list_all (\<lambda>t. truthy_id (thread_id t)) ts"
    and "list_all (\<lambda>t. CHR ''/'' \<notin> set (key_of t)) ts"
    and "distinct (map key_of ts)"
  shows "\<exists>r'. import_loop u r ts res = (Inr (res @ map (import_meta u) ts), r')
           \<and> \<not> net_error r' \<and> currentUser r' = currentUser r
           \<and> net_calls r' = net_calls r + length ts
           \<and> (\<forall>t \<in> set ts. map_of (docs r') (key_of t) = Some (import_meta u t))
           \<and> (\<forall>k. k \<notin> key_of ` set ts \<longrightarrow> map_of (docs r') k = map_of (docs r) k)"
  using assms
proof (induction ts arbitrary: r res)
  case Nil
  then show ?case by simp
next
  case (Cons t ts)
  let ?k = "key_of t"
  let ?m = "import_meta u t"
  let ?r1 = "r\<lparr>docs := put_doc ?k ?m (docs r), net_calls := Suc (net_calls r)\<rparr>"
  from Cons.prems have ref: "doc_ref (thread_id t) = Some ?k" by (simp add: doc_ref_key)
  from Cons.prems have set: "setDoc r ?k ?m = (Inr (), ?r1)" by (simp add: setDoc_def)
  have n1: "\<not> net_error ?r1" using Cons.prems by simp
  from Cons.prems have rest: "list_all (\<lambda>t. truthy_id (thread_id t)) ts"
    "list_all (\<lambda>t. CHR ''/'' \<notin> set (key_of t)) ts" "distinct (map key_of ts)"
    and fresh: "?k \<notin> key_of ` set ts" by simp_all
  from Cons.IH [OF n1 rest, of "res @ [?m]"] obtain r' where
    loop: "import_loop u ?r1 ts (res @ [?m]) = (Inr ((res @ [?m]) @ map (import_meta u) ts), r')"
    and n': "\<not> net_error r'" and c': "currentUser r' = currentUser ?r1"
    and calls: "net_calls r' = net_calls ?r1 + length ts"
    and in': "\<forall>t \<in> set ts. map_of (docs r') (key_of t) = Some (import_meta u t)"
    and out': "\<forall>k. k \<notin> key_of ` set ts \<longrightarrow> map_of (docs r') k = map_of (docs ?r1) k"
    by blast
  have head: "map_of (docs r') ?k = Some ?m"
    using out' fresh by (simp add: map_of_put_doc)
  have other: "map_of (docs r') k = map_of (docs r) k" if "k \<notin> key_of ` set (t # ts)" for k
    using out' that by (simp add: map_of_put_doc_other)
  have "import_loop u r (t # ts) res = (Inr (res @ map (import_meta u) (t # ts)), r')"
    using ref set loop by simp
  with n' c' calls in' head other show ?case by auto
qed

text \<open>
  Claim C8 as stated has \<open>syncToRemote\<close>, whenever a session exists, import every
  local thread and return their number. With a session, a local thread whose id is
  \<open>a/b\<close> makes \<open>doc\<close> throw: the call fails and nothing is imported. With a
  session and the remote request failing, the call fails with the error of the request.
\<close>

theorem syncToRemote_fails_counterexample:
  "isAuthenticated slash_session
   \<and> map thread_id (records (localdb slash_session)) = [Str ''a/b'']
   \<and> fst (syncToRemote slash_session) = Inl InvalidArgument
   \<and> docs (remotedb (snd (syncToRemote slash_session))) = docs (remotedb slash_session)
   \<and> isAuthenticated offline_session
   \<and> records (localdb offline_session) = [thread_t1]
   \<and> fst (syncToRemote offline_session) = Inl NetworkError
   \<and> docs (remotedb (snd (syncToRemote offline_session))) = docs (remotedb offline_session)"
  by (simp add: syncToRemote_def isAuthenticated_def slash_session_def offline_session_def
      remote_session_def signed_in_def local_store_def on_local_def on_remote_def
      getThreads_closed usable_def remoteStorage_importThreads_def doc_ref_def setDoc_def
      thread_t1_def empty_thread_def import_meta_def)

text \<open>
  Claim C8, as amended. Without a session \<open>syncToRemote\<close> throws "User not
  authenticated" and the whole state, with its counters of local transactions and remote
  requests, is as before. With a session, when the local database can be opened and read,
  the remote requests succeed, the local store is well formed (distinct non-empty ids,
  in key order) and no local id contains \<open>/\<close>, it returns the number of threads in the local store, leaves the local store
  as it is, issues one write request per local thread, and the remote collection then
  holds, under the id of each local thread, that thread with \<open>importedBy\<close> and
  \<open>importedByUid\<close> of the user, \<open>updatedAt\<close> the server timestamp, and
  \<open>createdAt\<close> kept unless missing or empty; every other document is as before.
\<close>

theorem syncToRemote_copies_local_threads:
  "(\<not> isAuthenticated s \<longrightarrow> syncToRemote s = (Inl UserNotAuthenticated, s))
   \<and> (\<forall>u. currentUser (remotedb s) = Some u \<and> usable (localdb s) \<and> \<not> read_error (localdb s)
          \<and> \<not> net_error (remotedb s) \<and> store_ok (localdb s)
          \<and> list_all (\<lambda>t. CHR ''/'' \<notin> set (key_of t)) (records (localdb s)) \<longrightarrow>
        (\<exists>s'. syncToRemote s = (Inr (length (records (localdb s))), s')
           \<and> records (localdb s') = records (localdb s)
           \<and> net_calls (remotedb s') = net_calls (remotedb s) + length (records (localdb s))
           \<and> (\<forall>t \<in> set (records (localdb s)).
                 map_of (docs (remotedb s')) (key_of t) =
                   Some (t\<lparr>importedBy := email u,
                           importedByUid := Some (uid u),
                           updatedAt := Some ServerTimestamp,
                           createdAt :=
                             (if createdAt t = None \<or> createdAt t = Some (Iso [])
                              then Some ServerTimestamp else createdAt t)\<rparr>))
           \<and> (\<forall>k. k \<notin> key_of ` set (records (localdb s)) \<longrightarrow>
                 map_of (docs (remotedb s')) k = map_of (docs (remotedb s)) k)))"
proof (intro conjI allI impI)
  assume "\<not> isAuthenticated s"
  then show "syncToRemote s = (Inl UserNotAuthenticated, s)" by (simp add: syncToRemote_def)
next
  fix u
  assume a: "currentUser (remotedb s) = Some u \<and> usable (localdb s) \<and> \<not> read_error (localdb s)
          \<and> \<not> net_error (remotedb s) \<and> store_ok (localdb s)
          \<and> list_all (\<lambda>t. CHR ''/'' \<notin> set (key_of t)) (records (localdb s))"
  let ?ts = "records (localdb s)"
  from a have ok: "list_all (\<lambda>t. truthy_id (thread_id t)) ?ts"
    "list_all (\<lambda>t. CHR ''/'' \<notin> set (key_of t)) ?ts" "distinct (map key_of ?ts)"
    by (simp_all add: store_ok_def)
  from a have net: "\<not> net_error (remotedb s)" by simp
  from import_loop_works [OF net ok, of u "[]"] obtain r' where
    loop: "import_loop u (remotedb s) ?ts [] = (Inr (map (import_meta u) ?ts), r')"
    and calls: "net_calls r' = net_calls (remotedb s) + length ?ts"
    and docs: "\<forall>t \<in> set ?ts. map_of (docs r') (key_of t) = Some (import_meta u t)"
    and others: "\<forall>k. k \<notin> key_of ` set ?ts \<longrightarrow> map_of (docs r') k = map_of (docs (remotedb s)) k"
    by auto
  show "\<exists>s'. syncToRemote s = (Inr (length ?ts), s')
           \<and> records (localdb s') = ?ts
           \<and> net_calls (remotedb s') = net_calls (remotedb s) + length ?ts
           \<and> (\<forall>t \<in> set ?ts.
                 map_of (docs (remotedb s')) (key_of t) =
                   Some (t\<lparr>importedBy := email u,
                           importedByUid := Some (uid u),
                           updatedAt := Some ServerTimestamp,
                           createdAt :=
                             (if createdAt t = None \<or> createdAt t = Some (Iso [])
                              then Some ServerTimestamp else createdAt t)\<rparr>))
           \<and> (\<forall>k. k \<notin> key_of ` set ?ts \<longrightarrow>
                 map_of (docs (remotedb s')) k = map_of (docs (remotedb s)) k)"
  proof (cases "?ts = []")
    case True
    with a show ?thesis
      by (simp add: syncToRemote_def isAuthenticated_def on_local_def getThreads_closed)
  next
    case False
    with a loop calls docs others show ?thesis
      by (simp add: syncToRemote_def isAuthenticated_def on_local_def on_remote_def
          getThreads_closed remoteStorage_importThreads_def import_meta_fields)
  qed
qed

theorem syncToRemote_copies_local_threads_witness:
  "\<not> isAuthenticated expired_session
   \<and> syncToRemote expired_session = (Inl UserNotAuthenticated, expired_session)
   \<and> currentUser (remotedb legacy_remote_session) = Some reviewer
   \<and> usable (localdb legacy_remote_session) \<and> \<not> read_error (localdb legacy_remote_session)
   \<and> \<not> net_error (remotedb legacy_remote_session) \<and> store_ok (localdb legacy_remote_session)
   \<and> list_all (\<lambda>t. CHR ''/'' \<notin> set (key_of t)) (records (localdb legacy_remote_session))
   \<and> records (localdb legacy_remote_session) = [thread_t1, legacy_thread]
   \<and> (\<exists>s'. syncToRemote legacy_remote_session = (Inr 2, s')
        \<and> records (localdb s') = [thread_t1, legacy_thread]
        \<and> net_calls (remotedb s') = 2
        \<and> map_of (docs (remotedb s')) ''t1'' =
            Some (thread_t1\<lparr>importedBy := Some ''reviewer@example.org'',
                    importedByUid := Some ''u1'', updatedAt := Some ServerTimestamp,
                    createdAt := Some ServerTimestamp\<rparr>)
        \<and> map_of (docs (remotedb s')) ''t7'' =
            Some (legacy_thread\<lparr>importedBy := Some ''reviewer@example.org'',
                    importedByUid := Some ''u1'', updatedAt := Some ServerTimestamp\<rparr>))"
proof -
  have a: "\<not> isAuthenticated expired_session"
    by (simp add: isAuthenticated_def expired_session_def signed_out_def)
  have b: "currentUser (remotedb legacy_remote_session) = Some reviewer"
    "usable (localdb legacy_remote_session)" "\<not> read_error (localdb legacy_remote_session)"
    "\<not> net_error (remotedb legacy_remote_session)" "store_ok (localdb legacy_remote_session)"
    "list_all (\<lambda>t. CHR ''/'' \<notin> set (key_of t)) (records (localdb legacy_remote_session))"
    "records (localdb legacy_remote_session) = [thread_t1, legacy_thread]"
    "net_calls (remotedb legacy_remote_session) = 0"
    by (simp_all add: legacy_remote_session_def signed_in_def local_store_def usable_def
        store_ok_def thread_t1_def legacy_thread_def empty_thread_def truthy_id_def key_of_def)
  have c: "key_of thread_t1 = ''t1''" "key_of legacy_thread = ''t7''"
    "createdAt thread_t1 = None" "createdAt legacy_thread = Some (Iso ''2023-11-30T08:00:00.000Z'')"
    "email reviewer = Some ''reviewer@example.org''" "uid reviewer = ''u1''"
    by (simp_all add: key_of_def thread_t1_def legacy_thread_def empty_thread_def reviewer_def)
  have d: "legacy_thread\<lparr>importedBy := Some ''reviewer@example.org'',
             importedByUid := Some ''u1'', updatedAt := Some ServerTimestamp,
             createdAt := Some (Iso ''2023-11-30T08:00:00.000Z'')\<rparr>
         = legacy_thread\<lparr>importedBy := Some ''reviewer@example.org'',
             importedByUid := Some ''u1'', updatedAt := Some ServerTimestamp\<rparr>"
    by (simp add: legacy_thread_def)
  from syncToRemote_copies_local_threads [of legacy_remote_session] b
  obtain s' where s': "syncToRemote legacy_remote_session = (Inr 2, s')"
    "records (localdb s') = [thread_t1, legacy_thread]"
    "net_calls (remotedb s') = 2"
    "map_of (docs (remotedb s')) (key_of thread_t1) =
       Some (thread_t1\<lparr>importedBy := email reviewer, importedByUid := Some (uid reviewer),
               updatedAt := Some ServerTimestamp,
               createdAt := (if createdAt thread_t1 = None \<or> createdAt thread_t1 = Some (Iso [])
                             then Some ServerTimestamp else createdAt thread_t1)\<rparr>)"
    "map_of (docs (remotedb s')) (key_of legacy_thread) =
       Some (legacy_thread\<lparr>importedBy := email reviewer, importedByUid := Some (uid reviewer),
               updatedAt := Some ServerTimestamp,
               createdAt := (if createdAt legacy_thread = None
                                \<or> createdAt legacy_thread = Some (Iso [])
                             then Some ServerTimestamp else createdAt legacy_thread)\<rparr>)"
    by auto
  show ?thesis
    using a b s' syncToRemote_copies_local_threads [of expired_session]
    by (simp add: c d)
qed

end
